theory Spec2Isabelle
  imports Complex_Main "HOL-Library.Multiset"
begin

section \<open>Numbers, errors and arrays\<close>

text \<open>
  The program computes with IEEE doubles through numpy. A double is a finite real, an
  infinity or NaN. Comparisons and the test for NaN are exact, and they are what the
  control flow of the program observes.
\<close>

datatype fl = Num real | PInf | NInf | NaN

text \<open>Comparisons with NaN are False, as in IEEE arithmetic.\<close>

fun fgt :: "fl \<Rightarrow> real \<Rightarrow> bool" where
  "fgt (Num a) t = (t < a)"
| "fgt PInf t = True"
| "fgt NInf t = False"
| "fgt NaN t = False"

fun flt :: "fl \<Rightarrow> real \<Rightarrow> bool" where
  "flt (Num a) t = (a < t)"
| "flt PInf t = False"
| "flt NInf t = True"
| "flt NaN t = False"

fun isnan :: "fl \<Rightarrow> bool" where
  "isnan NaN = True"
| "isnan (Num a) = False"
| "isnan PInf = False"
| "isnan NInf = False"

text \<open>
  The exceptions of Python and numpy that the modelled code can raise. A \<open>ValueError\<close>
  carries the place that raised it: the two shape checks of \<open>predict_horizon\<close>, or one of
  numpy's own shape checks.
\<close>

datatype origin = XHistory | UFuture | Matmul | Broadcast | Concatenate

datatype error =
    ValueError origin
  | IndexError
  | TypeError
  | UnboundLocalError
  | ZeroDivisionError
  | LinAlgError

definition bindE :: "error + 'a \<Rightarrow> ('a \<Rightarrow> error + 'b) \<Rightarrow> error + 'b" where
  "bindE m f = (case m of Inl e \<Rightarrow> Inl e | Inr v \<Rightarrow> f v)"

text \<open>
  A two-dimensional numpy array: its shape, kept explicitly (an array with no row still
  has a column count), and its entries by rows.
\<close>

record mat =
  nrows :: nat
  ncols :: nat
  entries :: "fl list list"

definition mk :: "nat \<Rightarrow> nat \<Rightarrow> (nat \<Rightarrow> nat \<Rightarrow> fl) \<Rightarrow> mat" where
  "mk r c f = \<lparr>nrows = r, ncols = c, entries = map (\<lambda>i. map (\<lambda>j. f i j) [0..<c]) [0..<r]\<rparr>"

definition ent :: "mat \<Rightarrow> nat \<Rightarrow> nat \<Rightarrow> fl" where
  "ent M i j = entries M ! i ! j"

text \<open>
  What numpy computes from doubles rounds, overflows and underflows, and the order of
  the additions inside a sum, an inner product or a norm is numpy's own. The arithmetic is
  therefore a parameter of the model: the four elementwise operations, \<open>np.sum\<close> of an
  array, \<open>np.linalg.norm(x, ord=2, axis=0)\<close> of a one-column array, and the entry
  \<open>(i, j)\<close> of a product \<open>A @ B\<close>. Every definition below that computes takes it as
  its first argument.
\<close>

record arith =
  op_add :: "fl \<Rightarrow> fl \<Rightarrow> fl"
  op_sub :: "fl \<Rightarrow> fl \<Rightarrow> fl"
  op_mul :: "fl \<Rightarrow> fl \<Rightarrow> fl"
  op_div :: "fl \<Rightarrow> fl \<Rightarrow> fl"
  op_sum :: "fl list \<Rightarrow> fl"
  op_norm :: "mat \<Rightarrow> fl"
  op_matmul :: "mat \<Rightarrow> mat \<Rightarrow> nat \<Rightarrow> nat \<Rightarrow> fl"

definition zeros :: "nat \<Rightarrow> nat \<Rightarrow> mat" where
  "zeros r c = mk r c (\<lambda>i j. Num 0)"

definition full_nan :: "nat \<Rightarrow> nat \<Rightarrow> mat" where
  "full_nan r c = mk r c (\<lambda>i j. NaN)"

definition transpose_m :: "mat \<Rightarrow> mat" where
  "transpose_m M = mk (ncols M) (nrows M) (\<lambda>i j. ent M j i)"

text \<open>\<open>A @ B\<close> on two-dimensional arrays: numpy raises ValueError unless the inner
  dimensions agree.\<close>

definition matmul :: "arith \<Rightarrow> mat \<Rightarrow> mat \<Rightarrow> error + mat" where
  "matmul ar A B =
     (if ncols A = nrows B
      then Inr (mk (nrows A) (ncols B) (op_matmul ar A B))
      else Inl (ValueError Matmul))"

text \<open>Elementwise operations broadcast: along each axis the two lengths are equal, or
  one of them is 1 and that operand is repeated.\<close>

definition bdim :: "nat \<Rightarrow> nat \<Rightarrow> nat option" where
  "bdim a b = (if a = b then Some a else if a = 1 then Some b else if b = 1 then Some a else None)"

definition bat :: "mat \<Rightarrow> nat \<Rightarrow> nat \<Rightarrow> fl" where
  "bat M i j = ent M (if nrows M = 1 then 0 else i) (if ncols M = 1 then 0 else j)"

definition elementwise :: "(fl \<Rightarrow> fl \<Rightarrow> fl) \<Rightarrow> mat \<Rightarrow> mat \<Rightarrow> error + mat" where
  "elementwise f A B =
     (case (bdim (nrows A) (nrows B), bdim (ncols A) (ncols B)) of
        (Some r, Some c) \<Rightarrow> Inr (mk r c (\<lambda>i j. f (bat A i j) (bat B i j)))
      | _ \<Rightarrow> Inl (ValueError Broadcast))"

definition np_add :: "arith \<Rightarrow> mat \<Rightarrow> mat \<Rightarrow> error + mat" where
  "np_add ar A B = elementwise (op_add ar) A B"

definition np_sub :: "arith \<Rightarrow> mat \<Rightarrow> mat \<Rightarrow> error + mat" where
  "np_sub ar A B = elementwise (op_sub ar) A B"

text \<open>A Python scalar times an array, and an array divided by a one-element array.\<close>

definition smul :: "arith \<Rightarrow> real \<Rightarrow> mat \<Rightarrow> mat" where
  "smul ar c M = mk (nrows M) (ncols M) (\<lambda>i j. op_mul ar (Num c) (ent M i j))"

definition sdiv :: "arith \<Rightarrow> mat \<Rightarrow> fl \<Rightarrow> mat" where
  "sdiv ar M d = mk (nrows M) (ncols M) (\<lambda>i j. op_div ar (ent M i j) d)"

text \<open>\<open>np.hstack([A, B])\<close> and \<open>np.vstack([A, B])\<close>: the other axis must agree.\<close>

definition hstack :: "mat \<Rightarrow> mat \<Rightarrow> error + mat" where
  "hstack A B =
     (if nrows A = nrows B
      then Inr (mk (nrows A) (ncols A + ncols B)
             (\<lambda>i j. if j < ncols A then ent A i j else ent B i (j - ncols A)))
      else Inl (ValueError Concatenate))"

definition vstack :: "mat \<Rightarrow> mat \<Rightarrow> error + mat" where
  "vstack A B =
     (if ncols A = ncols B
      then Inr (mk (nrows A + nrows B) (ncols A)
             (\<lambda>i j. if i < nrows A then ent A i j else ent B (i - nrows A) j))
      else Inl (ValueError Concatenate))"

text \<open>\<open>v.reshape([-1, 1])\<close> of the flat data of an array, and the flat data of a matrix.\<close>

definition reshape_col :: "fl list \<Rightarrow> mat" where
  "reshape_col v = mk (length v) 1 (\<lambda>i j. v ! i)"

definition flatten :: "mat \<Rightarrow> fl list" where
  "flatten M = concat (entries M)"

text \<open>\<open>M[:, :k]\<close> and \<open>M[:k, :]\<close> for \<open>k \<ge> 0\<close>, and \<open>v[:k]\<close> for any Python int \<open>k\<close>
  (a negative \<open>k\<close> drops the last \<open>-k\<close> elements).\<close>

definition cols_upto :: "nat \<Rightarrow> mat \<Rightarrow> mat" where
  "cols_upto k M = mk (nrows M) (min k (ncols M)) (ent M)"

definition rows_upto :: "nat \<Rightarrow> mat \<Rightarrow> mat" where
  "rows_upto k M = mk (min k (nrows M)) (ncols M) (ent M)"

definition py_take :: "int \<Rightarrow> 'a list \<Rightarrow> 'a list" where
  "py_take k xs = (if 0 \<le> k then take (nat k) xs else take (length xs - nat (- k)) xs)"

text \<open>\<open>M[:, idx]\<close> with a list of column indices: IndexError on an index out of range.\<close>

definition cols_pick :: "mat \<Rightarrow> nat list \<Rightarrow> error + mat" where
  "cols_pick M idx =
     (if list_all (\<lambda>j. j < ncols M) idx
      then Inr (mk (nrows M) (length idx) (\<lambda>i j. ent M i (idx ! j)))
      else Inl IndexError)"

definition diag_m :: "real list \<Rightarrow> mat" where
  "diag_m v = mk (length v) (length v) (\<lambda>i j. if i = j then Num (v ! i) else Num 0)"

text \<open>\<open>np.linalg.norm(x, ord=2, axis=0)\<close> of a one-column array.\<close>

definition norm2 :: "arith \<Rightarrow> mat \<Rightarrow> fl" where
  "norm2 ar M = op_norm ar M"

section \<open>truncatedSVD\<close>

text \<open>
  The rank parameter is a Python int or a Python float. \<open>np.linalg.svd\<close> is a parameter
  \<open>svd\<close> of the model: it returns \<open>(U, S, Vh)\<close> or raises.
\<close>

datatype rparam = IntR int | FloatR real

text \<open>\<open>np.cumsum\<close>, and \<open>np.searchsorted(a, v)\<close> on an ascending array: the number of
  entries below \<open>v\<close>.\<close>

fun cumsum_from :: "arith \<Rightarrow> fl \<Rightarrow> fl list \<Rightarrow> fl list" where
  "cumsum_from ar acc [] = []"
| "cumsum_from ar acc (x # xs) = op_add ar acc x # cumsum_from ar (op_add ar acc x) xs"

definition cumsum :: "arith \<Rightarrow> fl list \<Rightarrow> fl list" where
  "cumsum ar xs = cumsum_from ar (Num 0) xs"

definition searchsorted :: "fl list \<Rightarrow> real \<Rightarrow> nat" where
  "searchsorted a v = length (takeWhile (\<lambda>c. flt c v) a)"

text \<open>
  The two branches that bind \<open>rank\<close>. When neither condition holds the name is unbound
  and the slice \<open>U[:, :rank]\<close> raises UnboundLocalError. \<open>min(r, U.shape[1])\<close> of a float
  \<open>r\<close> is the float itself unless the int is smaller, and a float slice bound is a
  TypeError.
\<close>

definition svd_rank :: "arith \<Rightarrow> rparam \<Rightarrow> mat \<Rightarrow> fl list \<Rightarrow> error + nat" where
  "svd_rank ar r U S =
     (case r of
        IntR k \<Rightarrow>
          if 1 \<le> k then Inr (min (nat k) (ncols U)) else Inl UnboundLocalError
      | FloatR q \<Rightarrow>
          if 1 \<le> q then (if real (ncols U) < q then Inr (ncols U) else Inl TypeError)
          else if 0 < q \<and> q < 1 then
            (let sq = map (\<lambda>s. op_mul ar s s) S;
                 cumulative_energy = cumsum ar (map (\<lambda>e. op_div ar e (op_sum ar sq)) sq)
             in Inr (searchsorted cumulative_energy q + 1))
          else Inl UnboundLocalError)"

definition truncatedSVD ::
  "arith \<Rightarrow> (mat \<Rightarrow> error + (mat \<times> fl list \<times> mat)) \<Rightarrow> mat \<Rightarrow> rparam \<Rightarrow> error + (mat \<times> fl list \<times> mat)" where
  "truncatedSVD ar svd X r =
     bindE (svd X) (\<lambda>(U, S, Vh).
       let V = transpose_m Vh in
       bindE (svd_rank ar r U S) (\<lambda>rank.
         Inr (cols_upto rank U, take rank S, cols_upto rank V)))"

section \<open>sDMD_base\<close>

datatype status = NONE | AUGMENTATION | REDUCTION

record sDMD_base =
  rmin :: int
  rmax :: int
  thres :: real
  halflife :: "real option"
  rho :: real
  Ux :: mat
  Uy :: mat
  Q :: mat
  Pinvx :: mat
  Pinvy :: mat

text \<open>\<open>self.rho = 1 if halflife is None else 2 ** (-1 / halflife)\<close>; Python's division
  by zero raises.\<close>

definition init_rho :: "real option \<Rightarrow> error + real" where
  "init_rho hl =
     (case hl of
        None \<Rightarrow> Inr 1
      | Some h \<Rightarrow> if h = 0 then Inl ZeroDivisionError else Inr (2 powr (- 1 / h)))"

definition sDMD_base_init ::
  "arith \<Rightarrow> (mat \<Rightarrow> error + (mat \<times> fl list \<times> mat)) \<Rightarrow> mat \<Rightarrow> mat \<Rightarrow> int \<Rightarrow> int \<Rightarrow> real \<Rightarrow> real option
     \<Rightarrow> error + sDMD_base" where
  "sDMD_base_init ar svd X Y rmin0 rmax0 thres0 halflife0 =
     bindE (init_rho halflife0) (\<lambda>rho0.
     bindE (truncatedSVD ar svd X (IntR rmin0)) (\<lambda>(ux, sx, vx).
     bindE (truncatedSVD ar svd Y (IntR rmin0)) (\<lambda>(uy, sy, vy).
     bindE (matmul ar (transpose_m ux) X) (\<lambda>X_tild.
     bindE (matmul ar (transpose_m uy) Y) (\<lambda>Y_tild.
     bindE (matmul ar Y_tild (transpose_m X_tild)) (\<lambda>q.
     bindE (matmul ar X_tild (transpose_m X_tild)) (\<lambda>px.
     bindE (matmul ar Y_tild (transpose_m Y_tild)) (\<lambda>py.
       Inr \<lparr>rmin = rmin0, rmax = rmax0, thres = thres0, halflife = halflife0, rho = rho0,
            Ux = ux, Uy = uy, Q = q, Pinvx = px, Pinvy = py\<rparr>))))))))"

text \<open>
  \<open>update\<close>, lines 117 to 125: the reduced coordinates of both inputs, then both
  projection errors, in the order of the source.
\<close>

definition projection_errors :: "arith \<Rightarrow> 'a sDMD_base_scheme \<Rightarrow> mat \<Rightarrow> mat \<Rightarrow> error + (mat \<times> mat)" where
  "projection_errors ar self x y =
     bindE (matmul ar (transpose_m (Ux self)) x) (\<lambda>xtilde.
     bindE (matmul ar (transpose_m (Uy self)) y) (\<lambda>ytilde.
     bindE (matmul ar (Ux self) xtilde) (\<lambda>px.
     bindE (np_sub ar x px) (\<lambda>ex.
     bindE (matmul ar (Uy self) ytilde) (\<lambda>py.
     bindE (np_sub ar y py) (\<lambda>ey.
       Inr (ex, ey)))))))"

text \<open>Step 1, rank augmentation of \<open>Ux\<close> (lines 131 to 139) and of \<open>Uy\<close> (142 to 149).\<close>

definition expand_x :: "arith \<Rightarrow> 'a sDMD_base_scheme \<Rightarrow> mat \<Rightarrow> fl \<Rightarrow> error + ('a sDMD_base_scheme \<times> status)" where
  "expand_x ar self ex normx =
     (if fgt (op_div ar (norm2 ar ex) normx) (thres self) then
        (let u_new = sdiv ar ex (norm2 ar ex) in
         bindE (hstack (Ux self) (reshape_col (flatten u_new))) (\<lambda>ux.
         bindE (hstack (Pinvx self) (zeros (nrows (Pinvx self)) 1)) (\<lambda>p1.
         bindE (vstack p1 (zeros 1 (ncols p1))) (\<lambda>p2.
         bindE (hstack (Q self) (zeros (nrows (Q self)) 1)) (\<lambda>q.
           Inr (self\<lparr>Ux := ux, Pinvx := p2, Q := q\<rparr>, AUGMENTATION))))))
      else Inr (self, NONE))"

definition expand_y :: "arith \<Rightarrow> 'a sDMD_base_scheme \<Rightarrow> mat \<Rightarrow> fl \<Rightarrow> error + ('a sDMD_base_scheme \<times> status)" where
  "expand_y ar self ey normy =
     (if fgt (op_div ar (norm2 ar ey) normy) (thres self) then
        (let u_new = sdiv ar ey (norm2 ar ey) in
         bindE (hstack (Uy self) (reshape_col (flatten u_new))) (\<lambda>uy.
         bindE (hstack (Pinvy self) (zeros (nrows (Pinvy self)) 1)) (\<lambda>p1.
         bindE (vstack p1 (zeros 1 (ncols p1))) (\<lambda>p2.
         bindE (vstack (Q self) (zeros 1 (ncols (Q self)))) (\<lambda>q.
           Inr (self\<lparr>Uy := uy, Pinvy := p2, Q := q\<rparr>, AUGMENTATION))))))
      else Inr (self, NONE))"

text \<open>
  \<open>-v\<close>, \<open>np.sort(v)\<close>, \<open>np.argsort(v)\<close> and \<open>v[idx]\<close> on an array of eigenvalues.
  numpy does not say how \<open>argsort\<close> orders equal keys; the model orders them by position.
\<close>

definition np_neg :: "real list \<Rightarrow> real list" where
  "np_neg v = map uminus v"

definition np_sort :: "real list \<Rightarrow> real list" where
  "np_sort v = sort v"

definition np_argsort :: "real list \<Rightarrow> nat list" where
  "np_argsort v = sort_key (\<lambda>i. v ! i) [0..<length v]"

definition np_index :: "real list \<Rightarrow> nat list \<Rightarrow> real list" where
  "np_index v idx = map (\<lambda>i. v ! i) idx"

text \<open>
  Step 2, rank reduction of \<open>Ux\<close> (lines 153 to 162) and of \<open>Uy\<close> (165 to 174).
  \<open>np.linalg.eig\<close> is a parameter \<open>eig\<close> of the model: it returns the eigenvalues and
  the matrix of eigenvectors, or raises. The status passed in is the one step 1 left.
\<close>

definition compress_x ::
  "arith \<Rightarrow> (mat \<Rightarrow> error + (real list \<times> mat)) \<Rightarrow> 'a sDMD_base_scheme \<Rightarrow> status \<Rightarrow> error + ('a sDMD_base_scheme \<times> status)" where
  "compress_x ar eig self x_status =
     (if rmax self < int (ncols (Ux self)) then
        bindE (eig (Pinvx self)) (\<lambda>(eigval0, eigvec).
          let indx = np_argsort (np_neg eigval0);
              eigval = np_index eigval0 indx
          in
          bindE (cols_pick eigvec (py_take (rmin self) indx)) (\<lambda>qx.
          bindE (matmul ar (Ux self) qx) (\<lambda>ux.
          bindE (matmul ar (Q self) qx) (\<lambda>q.
            Inr (self\<lparr>Ux := ux, Q := q, Pinvx := diag_m (py_take (rmin self) eigval)\<rparr>,
                 REDUCTION)))))
      else Inr (self, x_status))"

definition compress_y ::
  "arith \<Rightarrow> (mat \<Rightarrow> error + (real list \<times> mat)) \<Rightarrow> 'a sDMD_base_scheme \<Rightarrow> status \<Rightarrow> error + ('a sDMD_base_scheme \<times> status)" where
  "compress_y ar eig self y_status =
     (if rmax self < int (ncols (Uy self)) then
        bindE (eig (Pinvy self)) (\<lambda>(eigval0, eigvec).
          let indx = np_argsort (np_neg eigval0);
              eigval = np_neg (np_sort (np_neg eigval0))
          in
          bindE (cols_pick eigvec (py_take (rmin self) indx)) (\<lambda>qy.
          bindE (matmul ar (Uy self) qy) (\<lambda>uy.
          bindE (matmul ar (transpose_m qy) (Q self)) (\<lambda>q.
            Inr (self\<lparr>Uy := uy, Q := q, Pinvy := diag_m (py_take (rmin self) eigval)\<rparr>,
                 REDUCTION)))))
      else Inr (self, y_status))"

text \<open>Step 3, the regression update (lines 177 to 183).\<close>

definition regression_update :: "arith \<Rightarrow> 'a sDMD_base_scheme \<Rightarrow> mat \<Rightarrow> mat \<Rightarrow> error + 'a sDMD_base_scheme" where
  "regression_update ar self x y =
     bindE (matmul ar (transpose_m (Ux self)) x) (\<lambda>xtilde.
     bindE (matmul ar (transpose_m (Uy self)) y) (\<lambda>ytilde.
     bindE (bindE (matmul ar ytilde (transpose_m xtilde)) (np_add ar (smul ar (rho self) (Q self)))) (\<lambda>q.
     bindE (bindE (matmul ar xtilde (transpose_m xtilde)) (np_add ar (smul ar (rho self) (Pinvx self)))) (\<lambda>px.
     bindE (bindE (matmul ar ytilde (transpose_m ytilde)) (np_add ar (smul ar (rho self) (Pinvy self)))) (\<lambda>py.
       Inr (self\<lparr>Q := q, Pinvx := px, Pinvy := py\<rparr>))))))"

text \<open>
  Steps 1 and 2 together, and the whole of \<open>update\<close>. The inputs are the flat data of
  the arrays passed in (the method reshapes them to columns first). A call that raises
  returns the exception only: what it had assigned to \<open>self\<close> before is not modelled.
\<close>

definition restructure ::
  "arith \<Rightarrow> (mat \<Rightarrow> error + (real list \<times> mat)) \<Rightarrow> 'a sDMD_base_scheme \<Rightarrow> mat \<Rightarrow> mat
     \<Rightarrow> error + ('a sDMD_base_scheme \<times> status \<times> status)" where
  "restructure ar eig self x y =
     (let normx = norm2 ar x; normy = norm2 ar y in
      bindE (projection_errors ar self x y) (\<lambda>(ex, ey).
      bindE (expand_x ar self ex normx) (\<lambda>(s1, x_status1).
      bindE (expand_y ar s1 ey normy) (\<lambda>(s2, y_status1).
      bindE (compress_x ar eig s2 x_status1) (\<lambda>(s3, x_status).
      bindE (compress_y ar eig s3 y_status1) (\<lambda>(s4, y_status).
        Inr (s4, x_status, y_status)))))))"

definition update ::
  "arith \<Rightarrow> (mat \<Rightarrow> error + (real list \<times> mat)) \<Rightarrow> 'a sDMD_base_scheme \<Rightarrow> fl list \<Rightarrow> fl list
     \<Rightarrow> error + ('a sDMD_base_scheme \<times> status \<times> status)" where
  "update ar eig self xin yin =
     (let x = reshape_col xin; y = reshape_col yin in
      bindE (restructure ar eig self x y) (\<lambda>(s4, x_status, y_status).
      bindE (regression_update ar s4 x y) (\<lambda>s5.
        Inr (s5, x_status, y_status))))"

text \<open>
  What numpy documents of \<open>eig\<close>: the argument is square, there is one eigenvalue per
  row, and the eigenvectors form a square matrix of the same size.
\<close>

definition eig_contract :: "(mat \<Rightarrow> error + (real list \<times> mat)) \<Rightarrow> bool" where
  "eig_contract eig \<longleftrightarrow>
     (\<forall>M vals vecs. eig M = Inr (vals, vecs) \<longrightarrow>
        nrows M = ncols M \<and> length vals = nrows M \<and> nrows vecs = nrows M \<and> ncols vecs = nrows M)"

text \<open>The normalized projection residual \<open>\<parallel>v - U U\<^sup>T v\<parallel> / \<parallel>v\<parallel>\<close> of a column \<open>v\<close>.\<close>

definition normalized_residual :: "arith \<Rightarrow> mat \<Rightarrow> mat \<Rightarrow> error + fl" where
  "normalized_residual ar U v =
     bindE (matmul ar (transpose_m U) v) (\<lambda>vtilde.
     bindE (matmul ar U vtilde) (\<lambda>pv.
     bindE (np_sub ar v pv) (\<lambda>e.
       Inr (op_div ar (norm2 ar e) (norm2 ar v)))))"

text \<open>The shape invariant of the sufficient statistics.\<close>

definition shapes_ok :: "'a sDMD_base_scheme \<Rightarrow> bool" where
  "shapes_ok self \<longleftrightarrow>
     nrows (Q self) = ncols (Uy self) \<and> ncols (Q self) = ncols (Ux self) \<and>
     nrows (Pinvx self) = ncols (Ux self) \<and> ncols (Pinvx self) = ncols (Ux self) \<and>
     nrows (Pinvy self) = ncols (Uy self) \<and> ncols (Pinvy self) = ncols (Uy self)"



text \<open>
  The y-side reduction written with the x-side's rule: the eigenvalues indexed by the
  permutation that selects the eigenvectors.
\<close>

definition compress_y_xrule ::
  "arith \<Rightarrow> (mat \<Rightarrow> error + (real list \<times> mat)) \<Rightarrow> 'a sDMD_base_scheme \<Rightarrow> status \<Rightarrow> error + ('a sDMD_base_scheme \<times> status)" where
  "compress_y_xrule ar eig self y_status =
     (if rmax self < int (ncols (Uy self)) then
        bindE (eig (Pinvy self)) (\<lambda>(eigval0, eigvec).
          let indx = np_argsort (np_neg eigval0);
              eigval = np_index eigval0 indx
          in
          bindE (cols_pick eigvec (py_take (rmin self) indx)) (\<lambda>qy.
          bindE (matmul ar (Uy self) qy) (\<lambda>uy.
          bindE (matmul ar (transpose_m qy) (Q self)) (\<lambda>q.
            Inr (self\<lparr>Uy := uy, Q := q, Pinvy := diag_m (py_take (rmin self) eigval)\<rparr>,
                 REDUCTION)))))
      else Inr (self, y_status))"

text \<open>The same result with another forgetting factor in the returned state.\<close>

definition with_rho ::
  "real \<Rightarrow> error + ('b sDMD_base_scheme \<times> 'a) \<Rightarrow> error + ('b sDMD_base_scheme \<times> 'a)" where
  "with_rho r res = (case res of Inl e \<Rightarrow> Inl e | Inr (s, a) \<Rightarrow> Inr (s\<lparr>rho := r\<rparr>, a))"

section \<open>Delay buffers\<close>

text \<open>
  Modelled from the spec: the classes \<open>Stacker\<close> and \<open>Delayer\<close> of the module
  \<open>utilities\<close>, which the source imports and which is not among the source files. The
  spec describes them as fixed-length FIFOs (push on update, drop the oldest):
  \<open>Stacker(dim, depth)\<close> returns on \<open>update\<close> the stacked vector of the last \<open>depth\<close>
  samples, the most recent block first, and \<open>Delayer(dim, delay)\<close> returns the sample
  from \<open>delay\<close> steps back; a call without argument returns the same value and changes
  nothing. The spec does not say what a buffer holds before it is full: the model starts
  from zero samples.

  Buffers are objects: they live in a heap, a list of objects addressed by position, and
  a new object is appended. \<open>update\<close> changes the heap at the address of its object only.
\<close>

datatype buffer =
    Stacker nat nat "fl list list"
  | Delayer nat nat "fl list list"

type_synonym heap = "buffer list"

definition new_Stacker :: "nat \<Rightarrow> nat \<Rightarrow> heap \<Rightarrow> heap \<times> nat" where
  "new_Stacker width depth h =
     (h @ [Stacker width depth (replicate depth (replicate width (Num 0)))], length h)"

definition new_Delayer :: "nat \<Rightarrow> nat \<Rightarrow> heap \<Rightarrow> heap \<times> nat" where
  "new_Delayer width delay h =
     (h @ [Delayer width delay (replicate (delay + 1) (replicate width (Num 0)))], length h)"

definition buffer_push :: "buffer \<Rightarrow> fl list \<Rightarrow> buffer" where
  "buffer_push b x =
     (case b of
        Stacker width depth xs \<Rightarrow> Stacker width depth (take depth (x # xs))
      | Delayer width delay xs \<Rightarrow> Delayer width delay (take (delay + 1) (x # xs)))"

definition buffer_value :: "buffer \<Rightarrow> mat" where
  "buffer_value b =
     (case b of
        Stacker width depth xs \<Rightarrow> reshape_col (concat xs)
      | Delayer width delay xs \<Rightarrow> reshape_col (if xs = [] then [] else last xs))"

definition buffer_update :: "nat \<Rightarrow> fl list \<Rightarrow> heap \<Rightarrow> heap \<times> mat" where
  "buffer_update a x h =
     (let b = buffer_push (h ! a) x in (h[a := b], buffer_value b))"

definition buffer_peek :: "nat \<Rightarrow> heap \<Rightarrow> mat" where
  "buffer_peek a h = buffer_value (h ! a)"

section \<open>sDMDc: the predictors\<close>

text \<open>
  The class extends \<open>sDMD_base\<close>. Its three live delay buffers are references into the
  heap. The fields \<open>s\<close> and \<open>f\<close> of the source are \<open>stack_s\<close> and \<open>delay_f\<close> here.
\<close>

record sDMDc = sDMD_base +
  stack_s :: nat
  delay_f :: nat
  nu :: nat
  nx :: nat
  Xstack0 :: nat
  Xstack1 :: nat
  Ustack :: nat

text \<open>
  The property \<open>A\<close>: \<open>self.Q @ np.linalg.pinv(self.Pinvx)\<close>, computed at every access.
  \<open>np.linalg.pinv\<close> is a parameter \<open>pinv\<close> of the model: it returns the pseudoinverse
  or raises (numpy: LinAlgError when the SVD does not converge).
\<close>

definition A_prop :: "arith \<Rightarrow> (mat \<Rightarrow> error + mat) \<Rightarrow> 'a sDMD_base_scheme \<Rightarrow> error + mat" where
  "A_prop ar pinv self = bindE (pinv (Pinvx self)) (\<lambda>p. matmul ar (Q self) p)"

text \<open>\<open>M[:, 0]\<close> (IndexError when there is no column), \<open>M[:, j]\<close> and \<open>xs[j]\<close> for a
  Python int \<open>j\<close> (a negative index counts from the end).\<close>

definition first_col :: "mat \<Rightarrow> error + fl list" where
  "first_col M = (if ncols M = 0 then Inl IndexError else Inr (map (\<lambda>i. ent M i 0) [0..<nrows M]))"

definition py_index :: "nat \<Rightarrow> int \<Rightarrow> error + nat" where
  "py_index n j =
     (let k = (if j < 0 then int n + j else j)
      in if 0 \<le> k \<and> k < int n then Inr (nat k) else Inl IndexError)"

definition py_col :: "mat \<Rightarrow> int \<Rightarrow> error + fl list" where
  "py_col M j = bindE (py_index (ncols M) j) (\<lambda>k. Inr (map (\<lambda>i. ent M i k) [0..<nrows M]))"

definition py_nth :: "'a list \<Rightarrow> int \<Rightarrow> error + 'a" where
  "py_nth xs j = bindE (py_index (length xs) j) (\<lambda>k. Inr (xs ! k))"

text \<open>
  The body of the \<open>try\<close> block of \<open>predict_next_raw_state_from_augmented\<close> (lines 436 to
  440), and the method. Line 429 evaluates the property \<open>A\<close> outside the \<open>try\<close>; its
  tests \<open>is None\<close> are False, the fields being arrays in every constructed instance.
  Whatever the \<open>try\<close> block raises becomes the all-NaN vector.
\<close>

definition try_predict :: "arith \<Rightarrow> (mat \<Rightarrow> error + mat) \<Rightarrow> sDMDc \<Rightarrow> mat \<Rightarrow> error + mat" where
  "try_predict ar pinv self aug =
     bindE (A_prop ar pinv self) (\<lambda>a.
     bindE (matmul ar (transpose_m (Ux self)) aug) (\<lambda>t.
     bindE (matmul ar a t) (\<lambda>y_reduced_pred.
     bindE (matmul ar (Uy self) y_reduced_pred) (\<lambda>y_hank_physical_pred.
     bindE (first_col (rows_upto (nx self) y_hank_physical_pred)) (\<lambda>predicted_x_next_raw.
       Inr (reshape_col predicted_x_next_raw))))))"

definition predict_next_raw_state_from_augmented ::
  "arith \<Rightarrow> (mat \<Rightarrow> error + mat) \<Rightarrow> sDMDc \<Rightarrow> mat \<Rightarrow> error + mat" where
  "predict_next_raw_state_from_augmented ar pinv self aug =
     bindE (A_prop ar pinv self) (\<lambda>a.
       if nrows aug \<noteq> nrows (Ux self) then Inr (full_nan (nx self) 1)
       else (case try_predict ar pinv self aug of
               Inl e \<Rightarrow> Inr (full_nan (nx self) 1)
             | Inr v \<Rightarrow> Inr v))"

text \<open>
  Programs on the heap that may raise: the heap is returned in both cases, since what an
  interrupted call did to its objects stays done.
\<close>

type_synonym 'a prog = "heap \<Rightarrow> heap \<times> (error + 'a)"

definition returnP :: "'a \<Rightarrow> 'a prog" where
  "returnP v h = (h, Inr v)"

definition liftE :: "error + 'a \<Rightarrow> 'a prog" where
  "liftE r h = (h, r)"

definition liftH :: "(heap \<Rightarrow> heap \<times> 'a) \<Rightarrow> 'a prog" where
  "liftH m h = (case m h of (h', v) \<Rightarrow> (h', Inr v))"

definition bindP :: "'a prog \<Rightarrow> ('a \<Rightarrow> 'b prog) \<Rightarrow> 'b prog" where
  "bindP m k h = (case m h of (h', Inl e) \<Rightarrow> (h', Inl e) | (h', Inr v) \<Rightarrow> k v h')"

text \<open>A \<open>for\<close> loop over a range that threads an accumulator.\<close>

fun foldP :: "nat list \<Rightarrow> (nat \<Rightarrow> 'a \<Rightarrow> 'a prog) \<Rightarrow> 'a \<Rightarrow> 'a prog" where
  "foldP [] body acc = returnP acc"
| "foldP (i # rest) body acc = bindP (body i acc) (foldP rest body)"

text \<open>\<open>P[:, i] = v\<close> for a one-dimensional \<open>v\<close>: its length is the number of rows, or 1
  and the value is repeated.\<close>

definition set_col :: "mat \<Rightarrow> nat \<Rightarrow> fl list \<Rightarrow> error + mat" where
  "set_col P i v =
     (if ncols P \<le> i then Inl IndexError
      else if length v = nrows P \<or> length v = 1
      then Inr (mk (nrows P) (ncols P)
             (\<lambda>r c. if c = i then (if length v = 1 then v ! 0 else v ! r) else ent P r c))
      else Inl (ValueError Broadcast))"

text \<open>
  The prediction loop of \<open>predict_horizon\<close> (lines 518 to 536), \<open>k\<close> iterations from
  index \<open>i\<close> on. \<open>a0\<close>, \<open>a1\<close> and \<open>a2\<close> are the temporary buffers \<open>pred_Xstack0\<close>,
  \<open>pred_Xstack1\<close> and \<open>pred_Ustack\<close>; \<open>P\<close> is \<open>predicted_X_raw_horizon\<close> and \<open>cur\<close> the
  data of \<open>current_x_raw_for_loop\<close>.
\<close>

fun horizon_loop ::
  "arith \<Rightarrow> (mat \<Rightarrow> error + mat) \<Rightarrow> sDMDc \<Rightarrow> mat \<Rightarrow> nat \<Rightarrow> nat \<Rightarrow> nat \<Rightarrow> nat \<Rightarrow> nat \<Rightarrow> mat \<Rightarrow> fl list
     \<Rightarrow> mat prog" where
  "horizon_loop ar pinv self u a0 a1 a2 0 i P cur = returnP P"
| "horizon_loop ar pinv self u a0 a1 a2 (Suc k) i P cur =
     bindP (liftE (py_col u (int (delay_f self) + int i))) (\<lambda>current_u_raw_for_stacker.
     bindP (liftH (buffer_update a0 cur)) (\<lambda>x0_hank.
     bindP (liftH (buffer_update a1 (flatten x0_hank))) (\<lambda>x_hank_delayed.
     bindP (liftH (buffer_update a2 current_u_raw_for_stacker)) (\<lambda>u_delayed.
     bindP (liftE (vstack x_hank_delayed u_delayed)) (\<lambda>aug_input_for_step.
     bindP (liftE (predict_next_raw_state_from_augmented ar pinv self aug_input_for_step))
       (\<lambda>next_x_raw_pred.
         if list_ex isnan (flatten next_x_raw_pred) then returnP (cols_upto i P)
         else
           bindP (liftE (set_col P i (flatten next_x_raw_pred))) (\<lambda>P'.
             horizon_loop ar pinv self u a0 a1 a2 k (Suc i) P' (flatten next_x_raw_pred))))))))"

text \<open>
  \<open>predict_horizon\<close>. The method returns the trajectory; the model also returns the
  instance as the call leaves it. Line 475 evaluates the property \<open>A\<close> first (its tests
  \<open>is None\<close> are False for arrays, so the branch that returns None is never taken).
  \<open>steps\<close> is \<open>num_predict_steps\<close>, a count.
\<close>

definition prime_buffers ::
  "sDMDc \<Rightarrow> mat \<Rightarrow> mat \<Rightarrow> int \<Rightarrow> (nat \<times> nat \<times> nat) prog" where
  "prime_buffers self x_hist u required_x_hist_len =
     bindP (liftH (new_Stacker (nx self) (stack_s self))) (\<lambda>pred_Xstack0.
     bindP (liftH (new_Delayer (nx self * stack_s self) (delay_f self))) (\<lambda>pred_Xstack1.
     bindP (liftH (new_Delayer (nu self) (delay_f self))) (\<lambda>pred_Ustack.
     bindP (foldP [0..<stack_s self]
              (\<lambda>i acc. bindP (liftE (py_col x_hist (- (int (stack_s self) - int i)))) (\<lambda>c.
                        bindP (liftH (buffer_update pred_Xstack0 c)) (\<lambda>r. returnP ())))
              ()) (\<lambda>u1.
     bindP (liftH (new_Stacker (nx self) (stack_s self))) (\<lambda>temp_s0_for_priming.
     bindP (foldP [0..<nat required_x_hist_len]
              (\<lambda>i hist. bindP (liftE (py_col x_hist (int i))) (\<lambda>c.
                         bindP (liftH (buffer_update temp_s0_for_priming c)) (\<lambda>r.
                         if int (stack_s self) - 1 \<le> int i
                         then bindP (liftH (\<lambda>h. (h, buffer_peek temp_s0_for_priming h))) (\<lambda>v.
                                returnP (hist @ [v]))
                         else returnP hist)))
              []) (\<lambda>temp_hist_x0_hank_for_Xstack1.
     bindP (foldP [0..<delay_f self]
              (\<lambda>i acc. bindP (liftE (py_nth temp_hist_x0_hank_for_Xstack1
                                        (- (int (delay_f self) - int i)))) (\<lambda>v.
                        bindP (liftH (buffer_update pred_Xstack1 (flatten v))) (\<lambda>r. returnP ())))
              ()) (\<lambda>u2.
     bindP (foldP [0..<delay_f self]
              (\<lambda>i acc. bindP (liftE (py_col u (int i))) (\<lambda>c.
                        bindP (liftH (buffer_update pred_Ustack c)) (\<lambda>r. returnP ())))
              ()) (\<lambda>u3.
       returnP (pred_Xstack0, pred_Xstack1, pred_Ustack)))))))))"

definition predict_horizon_body ::
  "arith \<Rightarrow> (mat \<Rightarrow> error + mat) \<Rightarrow> sDMDc \<Rightarrow> mat \<Rightarrow> mat \<Rightarrow> nat \<Rightarrow> mat prog" where
  "predict_horizon_body ar pinv self x_hist u steps =
     bindP (liftE (A_prop ar pinv self)) (\<lambda>a.
       let required_x_hist_len = int (stack_s self) + int (delay_f self) - 1 in
       if nrows x_hist \<noteq> nx self \<or> int (ncols x_hist) < required_x_hist_len
       then liftE (Inl (ValueError XHistory))
       else
         let required_u_len = int steps + int (delay_f self) - 1 in
         if nrows u \<noteq> nu self \<or> int (ncols u) < required_u_len
         then liftE (Inl (ValueError UFuture))
         else
           bindP (prime_buffers self x_hist u required_x_hist_len) (\<lambda>(a0, a1, a2).
           bindP (liftE (py_col x_hist (- 1))) (\<lambda>current_x_raw_for_loop.
             horizon_loop ar pinv self u a0 a1 a2 steps 0 (zeros (nx self) steps)
               current_x_raw_for_loop)))"

definition predict_horizon ::
  "arith \<Rightarrow> (mat \<Rightarrow> error + mat) \<Rightarrow> sDMDc \<Rightarrow> heap \<Rightarrow> mat \<Rightarrow> mat \<Rightarrow> nat
     \<Rightarrow> sDMDc \<times> heap \<times> (error + mat)" where
  "predict_horizon ar pinv self h x_hist u steps =
     (case predict_horizon_body ar pinv self x_hist u steps h of (h', r) \<Rightarrow> (self, h', r))"

text \<open>
  \<open>sDMDc.update\<close> (lines 348 to 361): the new state and control pass through the live
  buffers, and the base class's \<open>update\<close> runs on the delayed stacked state with the
  delayed control against the new stacked state.
\<close>

definition sDMDc_update ::
  "arith \<Rightarrow> (mat \<Rightarrow> error + (real list \<times> mat)) \<Rightarrow> sDMDc \<Rightarrow> fl list \<Rightarrow> fl list
     \<Rightarrow> (sDMDc \<times> status \<times> status) prog" where
  "sDMDc_update ar eig self x_in u_in =
     bindP (liftH (buffer_update (Xstack0 self) x_in)) (\<lambda>yhank.
     bindP (liftH (buffer_update (Xstack1 self) (flatten yhank))) (\<lambda>xhank.
     bindP (liftH (buffer_update (Ustack self) u_in)) (\<lambda>udel.
     bindP (liftE (vstack xhank udel)) (\<lambda>xnew.
       liftE (update ar eig self (flatten xnew) (flatten yhank))))))"

text \<open>
  A program keeps the heap below \<open>n\<close> when, started on a heap of at least \<open>n\<close> objects,
  it leaves the first \<open>n\<close> as they were and removes none; \<open>V\<close> and \<open>E\<close> say what it may
  return and raise.
\<close>

definition keeps :: "nat \<Rightarrow> 'a prog \<Rightarrow> ('a \<Rightarrow> bool) \<Rightarrow> (error \<Rightarrow> bool) \<Rightarrow> bool" where
  "keeps n m V E \<longleftrightarrow>
     (\<forall>h. n \<le> length h \<longrightarrow>
        (case m h of (h', r) \<Rightarrow>
           length h \<le> length h' \<and> take n h' = take n h \<and>
           (case r of Inl e \<Rightarrow> E e | Inr v \<Rightarrow> V v)))"

text \<open>The errors that are not one of the two shape checks of \<open>predict_horizon\<close>.\<close>

definition past_validation :: "error \<Rightarrow> bool" where
  "past_validation e \<longleftrightarrow> e \<noteq> ValueError XHistory \<and> e \<noteq> ValueError UFuture"

text \<open>The two shape conditions that \<open>predict_horizon\<close> checks.\<close>

definition x_hist_valid :: "sDMDc \<Rightarrow> mat \<Rightarrow> bool" where
  "x_hist_valid self x_hist \<longleftrightarrow>
     nrows x_hist = nx self \<and> int (stack_s self) + int (delay_f self) - 1 \<le> int (ncols x_hist)"

definition u_future_valid :: "sDMDc \<Rightarrow> mat \<Rightarrow> nat \<Rightarrow> bool" where
  "u_future_valid self u steps \<longleftrightarrow>
     nrows u = nu self \<and> int steps + int (delay_f self) - 1 \<le> int (ncols u)"

text \<open>A run that raises, or returns a trajectory of at most \<open>b\<close> columns.\<close>

definition short :: "nat \<Rightarrow> heap \<times> (error + mat) \<Rightarrow> bool" where
  "short b hr = (case snd hr of Inl e \<Rightarrow> True | Inr R \<Rightarrow> ncols R \<le> b)"

section \<open>Concrete instances\<close>

text \<open>
  Arithmetic without rounding or overflow, with the IEEE rules for infinities and NaN. On
  the small integers of the inputs below it is what float64 computes.
\<close>

fun fneg :: "fl \<Rightarrow> fl" where
  "fneg (Num a) = Num (- a)"
| "fneg PInf = NInf"
| "fneg NInf = PInf"
| "fneg NaN = NaN"

fun fadd :: "fl \<Rightarrow> fl \<Rightarrow> fl" where
  "fadd (Num a) (Num b) = Num (a + b)"
| "fadd NaN y = NaN"
| "fadd x NaN = NaN"
| "fadd PInf NInf = NaN"
| "fadd NInf PInf = NaN"
| "fadd PInf y = PInf"
| "fadd x PInf = PInf"
| "fadd NInf y = NInf"
| "fadd x NInf = NInf"

fun fsub :: "fl \<Rightarrow> fl \<Rightarrow> fl" where
  "fsub (Num a) (Num b) = Num (a - b)"
| "fsub x y = fadd x (fneg y)"

fun fsign :: "fl \<Rightarrow> real" where
  "fsign (Num a) = sgn a"
| "fsign PInf = 1"
| "fsign NInf = - 1"
| "fsign NaN = 0"

fun fmul :: "fl \<Rightarrow> fl \<Rightarrow> fl" where
  "fmul (Num a) (Num b) = Num (a * b)"
| "fmul NaN y = NaN"
| "fmul x NaN = NaN"
| "fmul x y = (if fsign x * fsign y = 0 then NaN else if 0 < fsign x * fsign y then PInf else NInf)"

fun fdiv :: "fl \<Rightarrow> fl \<Rightarrow> fl" where
  "fdiv (Num a) (Num b) =
     (if b \<noteq> 0 then Num (a / b) else if a = 0 then NaN else if 0 < a then PInf else NInf)"
| "fdiv NaN y = NaN"
| "fdiv x NaN = NaN"
| "fdiv (Num a) y = Num 0"
| "fdiv x (Num b) = (if 0 \<le> fsign x * (if b = 0 then 1 else sgn b) then PInf else NInf)"
| "fdiv x y = NaN"

fun fsqrt :: "fl \<Rightarrow> fl" where
  "fsqrt (Num a) = (if a < 0 then NaN else Num (sqrt a))"
| "fsqrt PInf = PInf"
| "fsqrt NInf = NaN"
| "fsqrt NaN = NaN"

definition fsum :: "fl list \<Rightarrow> fl" where
  "fsum xs = foldl fadd (Num 0) xs"

definition exact :: arith where
  "exact = \<lparr>op_add = fadd, op_sub = fsub, op_mul = fmul, op_div = fdiv, op_sum = fsum,
     op_norm = (\<lambda>M. fsqrt (fsum (map (\<lambda>i. fmul (ent M i 0) (ent M i 0)) [0..<nrows M]))),
     op_matmul = (\<lambda>A B i j. fsum (map (\<lambda>k. fmul (ent A i k) (ent B k j)) [0..<ncols A]))\<rparr>"

text \<open>
  Two small solvers to run the model on concrete inputs: the factorisation of an identity
  matrix (\<open>I = I diag(1) I\<close>) and the eigendecomposition of a diagonal matrix (its
  diagonal entries, with the unit vectors as eigenvectors). Both raise on any other input.
\<close>

definition identity_m :: "nat \<Rightarrow> mat" where
  "identity_m n = mk n n (\<lambda>i j. if i = j then Num 1 else Num 0)"

fun the_num :: "fl \<Rightarrow> real" where
  "the_num (Num a) = a"
| "the_num x = 0"

definition svd_identity :: "mat \<Rightarrow> error + (mat \<times> fl list \<times> mat)" where
  "svd_identity X =
     (if X = identity_m (nrows X)
      then Inr (identity_m (nrows X), replicate (nrows X) (Num 1), identity_m (nrows X))
      else Inl LinAlgError)"

definition eig_diagonal :: "mat \<Rightarrow> error + (real list \<times> mat)" where
  "eig_diagonal M =
     (let d = map (\<lambda>i. ent M i i) [0..<nrows M] in
      if list_all (\<lambda>e. \<not> isnan e) d \<and> M = diag_m (map the_num d)
      then Inr (map the_num d, identity_m (nrows M))
      else Inl LinAlgError)"

definition m_of :: "real list list \<Rightarrow> mat" where
  "m_of rs = \<lparr>nrows = length rs, ncols = length (hd rs), entries = map (map Num) rs\<rparr>"

definition base0 :: sDMD_base where
  "base0 = \<lparr>rmin = 1, rmax = 1, thres = 1 / 5, halflife = None, rho = 1,
            Ux = m_of [[1], [0]], Uy = m_of [[1], [0]],
            Q = m_of [[1]], Pinvx = m_of [[1]], Pinvy = m_of [[1]]\<rparr>"

definition base1 :: sDMD_base where
  "base1 = base0\<lparr>Pinvy := m_of [[2]]\<rparr>"




text \<open>
  A pseudoinverse for one-by-one matrices, which raises on NaN and on an infinity as
  numpy's SVD does, and a
  trained instance with \<open>nx = nu = s = f = 1\<close> whose model is \<open>x\<^sub>k\<^sub>+\<^sub>1 = x\<^sub>k\<close>, with its three
  live buffers in a heap.
\<close>

definition pinv_1x1 :: "mat \<Rightarrow> error + mat" where
  "pinv_1x1 M =
     (if nrows M = 1 \<and> ncols M = 1
      then (case ent M 0 0 of
              Num a \<Rightarrow> Inr (m_of [[if a = 0 then 0 else 1 / a]])
            | x \<Rightarrow> Inl LinAlgError)
      else Inl LinAlgError)"

definition ctl0 :: sDMDc where
  "ctl0 = \<lparr>rmin = 1, rmax = 1, thres = 1 / 5, halflife = None, rho = 1,
           Ux = m_of [[1], [0]], Uy = m_of [[1]],
           Q = m_of [[1]], Pinvx = m_of [[1]], Pinvy = m_of [[1]],
           stack_s = 1, delay_f = 1, nu = 1, nx = 1, Xstack0 = 0, Xstack1 = 1, Ustack = 2\<rparr>"

definition heap0 :: heap where
  "heap0 = [Stacker 1 1 [[Num 1]], Delayer 1 1 [[Num 1], [Num 1]], Delayer 1 1 [[Num 0], [Num 0]]]"

text \<open>
  The instance after a NaN sample (\<open>update\<close> with state NaN and control 0), and after one
  more sample (state 1, control 0), with the heaps they leave; and the heap that a
  prediction from \<open>heap0\<close> leaves behind, the live buffers followed by the four temporary
  ones.
\<close>

definition m_fl :: "fl list list \<Rightarrow> mat" where
  "m_fl rs = \<lparr>nrows = length rs, ncols = length (hd rs), entries = rs\<rparr>"

definition ctl1 :: sDMDc where
  "ctl1 = ctl0\<lparr>Q := m_fl [[NaN]], Pinvx := m_of [[2]], Pinvy := m_fl [[NaN]]\<rparr>"

definition heap1 :: heap where
  "heap1 = [Stacker 1 1 [[NaN]], Delayer 1 1 [[NaN], [Num 1]], Delayer 1 1 [[Num 0], [Num 0]]]"

definition ctl2 :: sDMDc where
  "ctl2 = ctl0\<lparr>Q := m_fl [[NaN]], Pinvx := m_fl [[NaN]], Pinvy := m_fl [[NaN]]\<rparr>"

definition heap2 :: heap where
  "heap2 = [Stacker 1 1 [[Num 1]], Delayer 1 1 [[Num 1], [NaN]], Delayer 1 1 [[Num 0], [Num 0]]]"

definition heap0_after :: heap where
  "heap0_after = heap0 @
     [Stacker 1 1 [[Num 1]], Delayer 1 1 [[Num 1], [Num 0]], Delayer 1 1 [[Num 0], [Num 0]],
      Stacker 1 1 [[Num 1]]]"

definition heap0_done :: heap where
  "heap0_done = heap0 @
     [Stacker 1 1 [[Num 1]], Delayer 1 1 [[Num 1], [Num 1]], Delayer 1 1 [[Num 0], [Num 0]],
      Stacker 1 1 [[Num 1]]]"

section \<open>Results, and truncatedSVD with r = -1\<close>

lemma bindE_Inr_iff:
  "bindE m f = Inr r \<longleftrightarrow> (\<exists>v. m = Inr v \<and> f v = Inr r)"
  by (cases m) (simp_all add: bindE_def)

lemma bindE_simps [simp]:
  "bindE (Inl e) f = Inl e"
  "bindE (Inr v) f = f v"
  by (simp_all add: bindE_def)

lemma mk_shape [simp]:
  "nrows (mk r c f) = r"
  "ncols (mk r c f) = c"
  by (simp_all add: mk_def)

text \<open>
  C8. The docstring of \<open>truncatedSVD\<close> promises that \<open>r = -1\<close> performs no truncation.
  In the code neither branch binds \<open>rank\<close> for \<open>r = -1\<close>: whenever the factorisation
  itself succeeds, the call raises UnboundLocalError and returns no factors.
\<close>

theorem truncatedSVD_minus_one_raises:
  "truncatedSVD ar svd X (IntR (- 1)) =
     (case svd X of Inl e \<Rightarrow> Inl e | Inr usv \<Rightarrow> Inl UnboundLocalError)"
  by (cases "svd X") (simp_all add: truncatedSVD_def svd_rank_def split: prod.splits)

section \<open>Shapes through update\<close>

lemma hstack_shape:
  "hstack A B = Inr C \<Longrightarrow> nrows C = nrows A \<and> ncols C = ncols A + ncols B \<and> nrows A = nrows B"
  by (auto simp: hstack_def split: if_splits)

lemma vstack_shape:
  "vstack A B = Inr C \<Longrightarrow> nrows C = nrows A + nrows B \<and> ncols C = ncols A \<and> ncols A = ncols B"
  by (auto simp: vstack_def split: if_splits)

lemma matmul_shape:
  "matmul ar A B = Inr C \<Longrightarrow> nrows C = nrows A \<and> ncols C = ncols B \<and> ncols A = nrows B"
  by (auto simp: matmul_def split: if_splits)

lemma matmul_dims:
  "matmul ar A B = Inr C \<Longrightarrow> nrows C = nrows A \<and> ncols C = ncols B"
  by (auto simp: matmul_def split: if_splits)

lemma elementwise_shape_eq:
  "elementwise f A B = Inr C \<Longrightarrow> nrows A = nrows B \<Longrightarrow> ncols A = ncols B \<Longrightarrow>
     nrows C = nrows A \<and> ncols C = ncols A"
  by (auto simp: elementwise_def bdim_def split: if_splits option.splits)

lemma shape_simps [simp]:
  "nrows (zeros r c) = r" "ncols (zeros r c) = c"
  "nrows (transpose_m M) = ncols M" "ncols (transpose_m M) = nrows M"
  "nrows (smul ar a M) = nrows M" "ncols (smul ar a M) = ncols M"
  "nrows (sdiv ar M d) = nrows M" "ncols (sdiv ar M d) = ncols M"
  "nrows (reshape_col v) = length v" "ncols (reshape_col v) = 1"
  "nrows (diag_m w) = length w" "ncols (diag_m w) = length w"
  "nrows (cols_upto k M) = nrows M" "ncols (cols_upto k M) = min k (ncols M)"
  "nrows (rows_upto k M) = min k (nrows M)" "ncols (rows_upto k M) = ncols M"
  "nrows (full_nan r c) = r" "ncols (full_nan r c) = c"
  by (simp_all add: zeros_def transpose_m_def smul_def sdiv_def reshape_col_def diag_m_def
      cols_upto_def rows_upto_def full_nan_def)

lemma cols_pick_shape:
  "cols_pick M idx = Inr C \<Longrightarrow> nrows C = nrows M \<and> ncols C = length idx"
  by (auto simp: cols_pick_def split: if_splits)

lemma expand_x_cases:
  assumes "expand_x ar s ex n = Inr (s', st)"
  shows "(\<not> fgt (op_div ar (norm2 ar ex) n) (thres s) \<and> s' = s \<and> st = NONE) \<or>
         (fgt (op_div ar (norm2 ar ex) n) (thres s) \<and> st = AUGMENTATION \<and>
          s' = s\<lparr>Ux := Ux s', Pinvx := Pinvx s', Q := Q s'\<rparr> \<and>
          ncols (Ux s') = ncols (Ux s) + 1 \<and> nrows (Ux s') = nrows (Ux s) \<and>
          nrows (Pinvx s') = nrows (Pinvx s) + 1 \<and> ncols (Pinvx s') = ncols (Pinvx s) + 1 \<and>
          nrows (Q s') = nrows (Q s) \<and> ncols (Q s') = ncols (Q s) + 1)"
proof (cases "fgt (op_div ar (norm2 ar ex) n) (thres s)")
  case False
  with assms show ?thesis by (simp add: expand_x_def)
next
  case True
  with assms obtain ux p1 p2 q where
    h: "hstack (Ux s) (reshape_col (flatten (sdiv ar ex (norm2 ar ex)))) = Inr ux"
       "hstack (Pinvx s) (zeros (nrows (Pinvx s)) 1) = Inr p1"
       "vstack p1 (zeros 1 (ncols p1)) = Inr p2"
       "hstack (Q s) (zeros (nrows (Q s)) 1) = Inr q"
       "s' = s\<lparr>Ux := ux, Pinvx := p2, Q := q\<rparr>" "st = AUGMENTATION"
    by (auto simp: expand_x_def Let_def bindE_Inr_iff)
  from h(1-4) have "ncols ux = ncols (Ux s) + 1" "nrows ux = nrows (Ux s)"
    "nrows p2 = nrows (Pinvx s) + 1" "ncols p2 = ncols (Pinvx s) + 1"
    "nrows q = nrows (Q s)" "ncols q = ncols (Q s) + 1"
    by (auto dest!: hstack_shape vstack_shape)
  with True h(5,6) show ?thesis by simp
qed


lemma expand_y_cases:
  assumes "expand_y ar s ey n = Inr (s', st)"
  shows "(\<not> fgt (op_div ar (norm2 ar ey) n) (thres s) \<and> s' = s \<and> st = NONE) \<or>
         (fgt (op_div ar (norm2 ar ey) n) (thres s) \<and> st = AUGMENTATION \<and>
          s' = s\<lparr>Uy := Uy s', Pinvy := Pinvy s', Q := Q s'\<rparr> \<and>
          ncols (Uy s') = ncols (Uy s) + 1 \<and> nrows (Uy s') = nrows (Uy s) \<and>
          nrows (Pinvy s') = nrows (Pinvy s) + 1 \<and> ncols (Pinvy s') = ncols (Pinvy s) + 1 \<and>
          nrows (Q s') = nrows (Q s) + 1 \<and> ncols (Q s') = ncols (Q s))"
proof (cases "fgt (op_div ar (norm2 ar ey) n) (thres s)")
  case False
  with assms show ?thesis by (simp add: expand_y_def)
next
  case True
  with assms obtain uy p1 p2 q where
    h: "hstack (Uy s) (reshape_col (flatten (sdiv ar ey (norm2 ar ey)))) = Inr uy"
       "hstack (Pinvy s) (zeros (nrows (Pinvy s)) 1) = Inr p1"
       "vstack p1 (zeros 1 (ncols p1)) = Inr p2"
       "vstack (Q s) (zeros 1 (ncols (Q s))) = Inr q"
       "s' = s\<lparr>Uy := uy, Pinvy := p2, Q := q\<rparr>" "st = AUGMENTATION"
    by (auto simp: expand_y_def Let_def bindE_Inr_iff)
  from h(1-4) have "ncols uy = ncols (Uy s) + 1" "nrows uy = nrows (Uy s)"
    "nrows p2 = nrows (Pinvy s) + 1" "ncols p2 = ncols (Pinvy s) + 1"
    "nrows q = nrows (Q s) + 1" "ncols q = ncols (Q s)"
    by (auto dest!: hstack_shape vstack_shape)
  with True h(5,6) show ?thesis by simp
qed

lemma length_np [simp]:
  "length (np_neg v) = length v"
  "length (np_sort v) = length v"
  "length (np_argsort v) = length v"
  "length (np_index v idx) = length idx"
  by (simp_all add: np_neg_def np_sort_def np_argsort_def np_index_def)

lemma length_py_take:
  "length (py_take k xs) = (if 0 \<le> k then min (nat k) (length xs) else length xs - nat (- k))"
  by (auto simp: py_take_def)

lemma length_py_take_cong:
  "length xs = length ys \<Longrightarrow> length (py_take k xs) = length (py_take k ys)"
  by (simp add: length_py_take)

lemma compress_x_cases:
  assumes "compress_x ar eig s st = Inr (s', st')"
  shows "(\<not> rmax s < int (ncols (Ux s)) \<and> s' = s \<and> st' = st) \<or>
         (rmax s < int (ncols (Ux s)) \<and> st' = REDUCTION \<and>
          s' = s\<lparr>Ux := Ux s', Q := Q s', Pinvx := Pinvx s'\<rparr> \<and>
          (\<exists>vals vecs. eig (Pinvx s) = Inr (vals, vecs) \<and> ncols (Ux s) = nrows vecs \<and>
             ncols (Ux s') = length (py_take (rmin s) vals) \<and>
             nrows (Pinvx s') = length (py_take (rmin s) vals) \<and>
             ncols (Pinvx s') = length (py_take (rmin s) vals) \<and>
             ncols (Q s') = length (py_take (rmin s) vals)) \<and>
          nrows (Ux s') = nrows (Ux s) \<and> nrows (Q s') = nrows (Q s))"
proof (cases "rmax s < int (ncols (Ux s))")
  case False
  with assms show ?thesis by (simp add: compress_x_def)
next
  case True
  with assms obtain vals vecs qx ux q where
    h: "eig (Pinvx s) = Inr (vals, vecs)"
       "cols_pick vecs (py_take (rmin s) (np_argsort (np_neg vals))) = Inr qx"
       "matmul ar (Ux s) qx = Inr ux" "matmul ar (Q s) qx = Inr q"
       "s' = s\<lparr>Ux := ux, Q := q,
           Pinvx := diag_m (py_take (rmin s) (np_index vals (np_argsort (np_neg vals))))\<rparr>"
       "st' = REDUCTION"
    by (auto simp: compress_x_def Let_def bindE_Inr_iff split: prod.splits)
  have len: "length (py_take (rmin s) (np_argsort (np_neg vals))) = length (py_take (rmin s) vals)"
       "length (py_take (rmin s) (np_index vals (np_argsort (np_neg vals)))) = length (py_take (rmin s) vals)"
    by (rule length_py_take_cong, simp)+
  from h(2) have qx: "nrows qx = nrows vecs" "ncols qx = length (py_take (rmin s) vals)"
    using len by (auto dest!: cols_pick_shape)
  from h(3,4) qx have "ncols (Ux s) = nrows vecs" "ncols ux = length (py_take (rmin s) vals)"
    "nrows ux = nrows (Ux s)" "nrows q = nrows (Q s)" "ncols q = length (py_take (rmin s) vals)"
    by (auto dest!: matmul_shape)
  with True h(1,5,6) len show ?thesis by simp
qed

lemma compress_y_cases:
  assumes "compress_y ar eig s st = Inr (s', st')"
  shows "(\<not> rmax s < int (ncols (Uy s)) \<and> s' = s \<and> st' = st) \<or>
         (rmax s < int (ncols (Uy s)) \<and> st' = REDUCTION \<and>
          s' = s\<lparr>Uy := Uy s', Q := Q s', Pinvy := Pinvy s'\<rparr> \<and>
          (\<exists>vals vecs. eig (Pinvy s) = Inr (vals, vecs) \<and> ncols (Uy s) = nrows vecs \<and>
             ncols (Uy s') = length (py_take (rmin s) vals) \<and>
             nrows (Pinvy s') = length (py_take (rmin s) vals) \<and>
             ncols (Pinvy s') = length (py_take (rmin s) vals) \<and>
             nrows (Q s') = length (py_take (rmin s) vals)) \<and>
          nrows (Uy s') = nrows (Uy s) \<and> ncols (Q s') = ncols (Q s))"
proof (cases "rmax s < int (ncols (Uy s))")
  case False
  with assms show ?thesis by (simp add: compress_y_def)
next
  case True
  with assms obtain vals vecs qy uy q where
    h: "eig (Pinvy s) = Inr (vals, vecs)"
       "cols_pick vecs (py_take (rmin s) (np_argsort (np_neg vals))) = Inr qy"
       "matmul ar (Uy s) qy = Inr uy" "matmul ar (transpose_m qy) (Q s) = Inr q"
       "s' = s\<lparr>Uy := uy, Q := q,
           Pinvy := diag_m (py_take (rmin s) (np_neg (np_sort (np_neg vals))))\<rparr>"
       "st' = REDUCTION"
    by (auto simp: compress_y_def Let_def bindE_Inr_iff split: prod.splits)
  have len: "length (py_take (rmin s) (np_argsort (np_neg vals))) = length (py_take (rmin s) vals)"
       "length (py_take (rmin s) (np_neg (np_sort (np_neg vals)))) = length (py_take (rmin s) vals)"
    by (rule length_py_take_cong, simp)+
  from h(2) have qy: "nrows qy = nrows vecs" "ncols qy = length (py_take (rmin s) vals)"
    using len by (auto dest!: cols_pick_shape)
  from h(3,4) qy have "ncols (Uy s) = nrows vecs" "ncols uy = length (py_take (rmin s) vals)"
    "nrows uy = nrows (Uy s)" "ncols q = ncols (Q s)" "nrows q = length (py_take (rmin s) vals)"
    by (auto dest!: matmul_shape)
  with True h(1,5,6) len show ?thesis by simp
qed

lemma regression_update_shapes:
  assumes "regression_update ar s x y = Inr s'" "shapes_ok s"
  shows "shapes_ok s' \<and> Ux s' = Ux s \<and> Uy s' = Uy s \<and> rmin s' = rmin s \<and> rmax s' = rmax s"
proof -
  from assms(1) obtain xt yt o1 q o2 px o3 py where
    h: "matmul ar (transpose_m (Ux s)) x = Inr xt" "matmul ar (transpose_m (Uy s)) y = Inr yt"
       "matmul ar yt (transpose_m xt) = Inr o1" "np_add ar (smul ar (rho s) (Q s)) o1 = Inr q"
       "matmul ar xt (transpose_m xt) = Inr o2" "np_add ar (smul ar (rho s) (Pinvx s)) o2 = Inr px"
       "matmul ar yt (transpose_m yt) = Inr o3" "np_add ar (smul ar (rho s) (Pinvy s)) o3 = Inr py"
       "s' = s\<lparr>Q := q, Pinvx := px, Pinvy := py\<rparr>"
    by (auto simp: regression_update_def bindE_Inr_iff)
  have t: "nrows xt = ncols (Ux s)" "nrows yt = ncols (Uy s)"
    using matmul_dims[OF h(1)] matmul_dims[OF h(2)] by simp_all
  have o: "nrows o1 = ncols (Uy s)" "ncols o1 = ncols (Ux s)"
    "nrows o2 = ncols (Ux s)" "ncols o2 = ncols (Ux s)"
    "nrows o3 = ncols (Uy s)" "ncols o3 = ncols (Uy s)"
    using matmul_dims[OF h(3)] matmul_dims[OF h(5)] matmul_dims[OF h(7)] t by simp_all
  from assms(2) have inv: "nrows (smul ar (rho s) (Q s)) = nrows o1" "ncols (smul ar (rho s) (Q s)) = ncols o1"
    "nrows (smul ar (rho s) (Pinvx s)) = nrows o2" "ncols (smul ar (rho s) (Pinvx s)) = ncols o2"
    "nrows (smul ar (rho s) (Pinvy s)) = nrows o3" "ncols (smul ar (rho s) (Pinvy s)) = ncols o3"
    using o by (simp_all add: shapes_ok_def)
  have "nrows q = ncols (Uy s)" "ncols q = ncols (Ux s)"
    using elementwise_shape_eq[OF h(4)[unfolded np_add_def] inv(1,2)] o assms(2) by (simp_all add: shapes_ok_def)
  moreover have "nrows px = ncols (Ux s)" "ncols px = ncols (Ux s)"
    using elementwise_shape_eq[OF h(6)[unfolded np_add_def] inv(3,4)] o assms(2) by (simp_all add: shapes_ok_def)
  moreover have "nrows py = ncols (Uy s)" "ncols py = ncols (Uy s)"
    using elementwise_shape_eq[OF h(8)[unfolded np_add_def] inv(5,6)] o assms(2) by (simp_all add: shapes_ok_def)
  ultimately have "nrows q = ncols (Uy s)" "ncols q = ncols (Ux s)"
    "nrows px = ncols (Ux s)" "ncols px = ncols (Ux s)"
    "nrows py = ncols (Uy s)" "ncols py = ncols (Uy s)" by simp_all
  with h(9) show ?thesis by (simp add: shapes_ok_def)
qed

lemma frame_x:
  assumes "s' = s\<lparr>Ux := a, Pinvx := b, Q := c\<rparr>"
  shows "Uy s' = Uy s" "Pinvy s' = Pinvy s" "rmin s' = rmin s" "rmax s' = rmax s"
    "thres s' = thres s" "rho s' = rho s"
  using assms by simp_all

lemma frame_y:
  assumes "s' = s\<lparr>Uy := a, Pinvy := b, Q := c\<rparr>"
  shows "Ux s' = Ux s" "Pinvx s' = Pinvx s" "rmin s' = rmin s" "rmax s' = rmax s"
    "thres s' = thres s" "rho s' = rho s"
  using assms by simp_all

lemma frame_cx:
  assumes "s' = s\<lparr>Ux := a, Q := c, Pinvx := b\<rparr>"
  shows "Uy s' = Uy s" "Pinvy s' = Pinvy s" "rmin s' = rmin s" "rmax s' = rmax s"
    "thres s' = thres s" "rho s' = rho s"
  using assms by simp_all

lemma frame_cy:
  assumes "s' = s\<lparr>Uy := a, Q := c, Pinvy := b\<rparr>"
  shows "Ux s' = Ux s" "Pinvx s' = Pinvx s" "rmin s' = rmin s" "rmax s' = rmax s"
    "thres s' = thres s" "rho s' = rho s"
  using assms by simp_all

lemma expand_x_frame:
  assumes "expand_x ar s ex n = Inr (s', st)"
  shows "Uy s' = Uy s" "Pinvy s' = Pinvy s" "rmin s' = rmin s" "rmax s' = rmax s"
    "thres s' = thres s" "rho s' = rho s"
  using expand_x_cases[OF assms] frame_x[where s'=s' and s=s and a="Ux s'" and b="Pinvx s'" and c="Q s'"] by auto

lemma expand_y_frame:
  assumes "expand_y ar s ey n = Inr (s', st)"
  shows "Ux s' = Ux s" "Pinvx s' = Pinvx s" "rmin s' = rmin s" "rmax s' = rmax s"
    "thres s' = thres s" "rho s' = rho s"
  using expand_y_cases[OF assms] frame_y[where s'=s' and s=s and a="Uy s'" and b="Pinvy s'" and c="Q s'"] by auto

lemma compress_x_frame:
  assumes "compress_x ar eig s st = Inr (s', st')"
  shows "Uy s' = Uy s" "Pinvy s' = Pinvy s" "rmin s' = rmin s" "rmax s' = rmax s"
    "thres s' = thres s" "rho s' = rho s"
  using compress_x_cases[OF assms] frame_cx[where s'=s' and s=s and a="Ux s'" and b="Pinvx s'" and c="Q s'"] by auto

lemma compress_y_frame:
  assumes "compress_y ar eig s st = Inr (s', st')"
  shows "Ux s' = Ux s" "Pinvx s' = Pinvx s" "rmin s' = rmin s" "rmax s' = rmax s"
    "thres s' = thres s" "rho s' = rho s"
  using compress_y_cases[OF assms] frame_cy[where s'=s' and s=s and a="Uy s'" and b="Pinvy s'" and c="Q s'"] by auto

lemma expand_x_shapes_ok:
  assumes "expand_x ar s ex n = Inr (s', st)" "shapes_ok s"
  shows "shapes_ok s'"
  using expand_x_cases[OF assms(1)] expand_x_frame(1,2)[OF assms(1)] assms(2)
  by (auto simp: shapes_ok_def)

lemma expand_y_shapes_ok:
  assumes "expand_y ar s ey n = Inr (s', st)" "shapes_ok s"
  shows "shapes_ok s'"
  using expand_y_cases[OF assms(1)] expand_y_frame(1,2)[OF assms(1)] assms(2)
  by (auto simp: shapes_ok_def)

lemma compress_x_shapes_ok:
  assumes "compress_x ar eig s st = Inr (s', st')" "shapes_ok s"
  shows "shapes_ok s'"
  using compress_x_cases[OF assms(1)] compress_x_frame(1,2)[OF assms(1)] assms(2)
  by (auto simp: shapes_ok_def)

lemma compress_y_shapes_ok:
  assumes "compress_y ar eig s st = Inr (s', st')" "shapes_ok s"
  shows "shapes_ok s'"
  using compress_y_cases[OF assms(1)] compress_y_frame(1,2)[OF assms(1)] assms(2)
  by (auto simp: shapes_ok_def)

lemma restructure_stages:
  assumes "restructure ar eig s x y = Inr (s4, sx, sy)"
  obtains ex ey s1 xs1 s2 ys1 s3 where
    "projection_errors ar s x y = Inr (ex, ey)"
    "expand_x ar s ex (norm2 ar x) = Inr (s1, xs1)"
    "expand_y ar s1 ey (norm2 ar y) = Inr (s2, ys1)"
    "compress_x ar eig s2 xs1 = Inr (s3, sx)"
    "compress_y ar eig s3 ys1 = Inr (s4, sy)"
  using assms by (auto simp: restructure_def Let_def bindE_Inr_iff)

lemma update_stages:
  assumes "update ar eig s xin yin = Inr (s', sx, sy)"
  obtains s4 where
    "restructure ar eig s (reshape_col xin) (reshape_col yin) = Inr (s4, sx, sy)"
    "regression_update ar s4 (reshape_col xin) (reshape_col yin) = Inr s'"
  using assms by (auto simp: update_def Let_def bindE_Inr_iff)

lemma restructure_shapes_ok:
  assumes "restructure ar eig s x y = Inr (s4, sx, sy)" "shapes_ok s"
  shows "shapes_ok s4"
proof -
  from assms(1) obtain ex ey s1 xs1 s2 ys1 s3 where
    h: "expand_x ar s ex (norm2 ar x) = Inr (s1, xs1)"
       "expand_y ar s1 ey (norm2 ar y) = Inr (s2, ys1)"
       "compress_x ar eig s2 xs1 = Inr (s3, sx)"
       "compress_y ar eig s3 ys1 = Inr (s4, sy)"
    by (rule restructure_stages)
  show ?thesis
    using compress_y_shapes_ok[OF h(4) compress_x_shapes_ok[OF h(3)
      expand_y_shapes_ok[OF h(2) expand_x_shapes_ok[OF h(1) assms(2)]]]] .
qed

lemma truncatedSVD_first:
  assumes "truncatedSVD ar svd X r = Inr (u, sv, v)"
  obtains U S Vh rank where "svd X = Inr (U, S, Vh)" "svd_rank ar r U S = Inr rank"
    "u = cols_upto rank U"
  using assms by (auto simp: truncatedSVD_def Let_def bindE_Inr_iff)

lemma init_shapes_ok:
  assumes "sDMD_base_init ar svd X Y rmin0 rmax0 thres0 hl = Inr s"
  shows "shapes_ok s"
proof -
  from assms obtain ux uy xt yt q px py where
    h: "matmul ar (transpose_m ux) X = Inr xt" "matmul ar (transpose_m uy) Y = Inr yt"
       "matmul ar yt (transpose_m xt) = Inr q" "matmul ar xt (transpose_m xt) = Inr px"
       "matmul ar yt (transpose_m yt) = Inr py"
       "Ux s = ux" "Uy s = uy" "Q s = q" "Pinvx s = px" "Pinvy s = py"
    by (auto simp: sDMD_base_init_def bindE_Inr_iff)
  show ?thesis
    using matmul_dims[OF h(1)] matmul_dims[OF h(2)] matmul_dims[OF h(3)]
      matmul_dims[OF h(4)] matmul_dims[OF h(5)] h(6-10)
    by (simp add: shapes_ok_def)
qed

text \<open>
  C3. The shape invariant: \<open>Q\<close> has one row per column of \<open>Uy\<close> and one column per
  column of \<open>Ux\<close>, \<open>Pinvx\<close> is square of the width of \<open>Ux\<close> and \<open>Pinvy\<close> square of the
  width of \<open>Uy\<close>. A construction that succeeds establishes it, and a call of \<open>update\<close>
  that returns on a state that has it yields a state that has it.
\<close>
theorem shapes_ok_invariant:
  "(sDMD_base_init ar svd X Y rmin0 rmax0 thres0 hl = Inr self0 \<longrightarrow> shapes_ok self0) \<and>
   (shapes_ok self \<and> update ar eig self xin yin = Inr (self', sx, sy) \<longrightarrow> shapes_ok self')"
proof (intro conjI impI)
  assume "sDMD_base_init ar svd X Y rmin0 rmax0 thres0 hl = Inr self0"
  then show "shapes_ok self0" by (rule init_shapes_ok)
next
  assume a: "shapes_ok self \<and> update ar eig self xin yin = Inr (self', sx, sy)"
  then obtain s4 where
    h: "restructure ar eig self (reshape_col xin) (reshape_col yin) = Inr (s4, sx, sy)"
       "regression_update ar s4 (reshape_col xin) (reshape_col yin) = Inr self'"
    by (auto elim: update_stages)
  from a have "shapes_ok s4" using restructure_shapes_ok[OF h(1)] by simp
  then show "shapes_ok self'" using regression_update_shapes[OF h(2)] by simp
qed

subsection \<open>Running the model on concrete inputs\<close>

lemmas ev = mk_def ent_def zeros_def transpose_m_def matmul_def exact_def fsum_def m_of_def identity_m_def
  reshape_col_def flatten_def sdiv_def smul_def hstack_def vstack_def norm2_def
  elementwise_def bdim_def bat_def np_add_def np_sub_def cols_upto_def diag_m_def cols_pick_def
  py_take_def np_neg_def np_sort_def np_argsort_def np_index_def

lemma upt2: "[0..<2] = [0, 1]"
  by (simp add: upt_rec)

lemma init_base0:
  "sDMD_base_init exact svd_identity (identity_m 2) (identity_m 2) 1 1 (1 / 5) None = Inr base0"
  by (simp add: sDMD_base_init_def init_rho_def truncatedSVD_def svd_rank_def svd_identity_def
      base0_def ev upt2)

lemma update_base0:
  "update exact eig_diagonal base0 [Num 0, Num 1] [Num 1, Num 0] = Inr (base1, REDUCTION, NONE)"
  apply (simp add: update_def restructure_def projection_errors_def base0_def base1_def ev upt2 Let_def)
  apply (simp add: expand_x_def expand_y_def ev upt2 Let_def)
  apply (simp add: compress_x_def compress_y_def eig_diagonal_def ev upt2 Let_def)
  apply (simp add: regression_update_def ev upt2)
  done

lemma eig_diagonal_contract: "eig_contract eig_diagonal"
proof -
  have "nrows M = ncols M \<and> length vals = nrows M \<and> nrows vecs = nrows M \<and> ncols vecs = nrows M"
    if h: "eig_diagonal M = Inr (vals, vecs)" for M vals vecs
  proof -
    let ?d = "map (\<lambda>i. ent M i i) [0..<nrows M]"
    from h have m: "M = diag_m (map the_num ?d)" and v: "vals = map the_num ?d"
      and w: "vecs = identity_m (nrows M)"
      by (auto simp: eig_diagonal_def Let_def split: if_splits)
    have "ncols M = ncols (diag_m (map the_num ?d))" using m by simp
    then have "ncols M = nrows M" by simp
    with v w show ?thesis by (simp add: identity_m_def)
  qed
  then show ?thesis unfolding eig_contract_def by blast
qed

lemma shapes_ok_base0: "shapes_ok base0"
  by (simp add: shapes_ok_def base0_def m_of_def)

theorem shapes_ok_invariant_witness:
  "sDMD_base_init exact svd_identity (identity_m 2) (identity_m 2) 1 1 (1 / 5) None = Inr base0 \<and>
   shapes_ok base0 \<and>
   update exact eig_diagonal base0 [Num 0, Num 1] [Num 1, Num 0] = Inr (base1, REDUCTION, NONE) \<and>
   shapes_ok base1"
  using shapes_ok_invariant[of exact svd_identity "identity_m 2" "identity_m 2" 1 1 "1 / 5" None base0
      base0 eig_diagonal "[Num 0, Num 1]" "[Num 1, Num 0]" base1 REDUCTION NONE]
    init_base0 update_base0
  by simp

section \<open>Widths and statuses\<close>

lemma regression_update_frame:
  assumes "regression_update ar s x y = Inr s'"
  shows "Ux s' = Ux s" "Uy s' = Uy s" "rmin s' = rmin s" "rmax s' = rmax s"
    "thres s' = thres s" "rho s' = rho s"
  using assms by (auto simp: regression_update_def bindE_Inr_iff)

text \<open>The width a reduction leaves: the length of \<open>v[:rmin]\<close> for \<open>v\<close> of length \<open>w\<close>.\<close>

lemma side_x:
  assumes c: "eig_contract eig"
    and e: "expand_x ar s ex n = Inr (s1, st1)"
    and f: "Ux s2 = Ux s1" "Pinvx s2 = Pinvx s1" "rmax s2 = rmax s1" "rmin s2 = rmin s1"
    and k: "compress_x ar eig s2 st1 = Inr (s3, st)"
  defines "g \<equiv> fgt (op_div ar (norm2 ar ex) n) (thres s)"
  defines "w1 \<equiv> (if g then ncols (Ux s) + 1 else ncols (Ux s))"
  shows "ncols (Ux s3) =
           (if rmax s < int w1
            then (if 0 \<le> rmin s then min (nat (rmin s)) w1 else w1 - nat (- rmin s))
            else w1)"
    and "st = (if rmax s < int w1 then REDUCTION else if g then AUGMENTATION else NONE)"
proof -
  have w1: "ncols (Ux s2) = w1" and st1: "st1 = (if g then AUGMENTATION else NONE)"
    using expand_x_cases[OF e] f(1) by (auto simp: g_def w1_def)
  have r: "rmax s2 = rmax s" "rmin s2 = rmin s"
    using expand_x_frame(3,4)[OF e] f(3,4) by simp_all
  show "ncols (Ux s3) =
           (if rmax s < int w1
            then (if 0 \<le> rmin s then min (nat (rmin s)) w1 else w1 - nat (- rmin s))
            else w1)"
  proof (cases "rmax s < int w1")
    case False
    then show ?thesis using compress_x_cases[OF k] w1 r by auto
  next
    case True
    with compress_x_cases[OF k] w1 r obtain vals vecs where
      v: "eig (Pinvx s2) = Inr (vals, vecs)" "ncols (Ux s2) = nrows vecs"
         "ncols (Ux s3) = length (py_take (rmin s2) vals)"
      by auto
    from c v(1) have "length vals = nrows vecs"
      unfolding eig_contract_def by metis
    with v(2) w1 have "length vals = w1" by simp
    with v(3) r True show ?thesis by (simp add: length_py_take)
  qed
  show "st = (if rmax s < int w1 then REDUCTION else if g then AUGMENTATION else NONE)"
    using compress_x_cases[OF k] w1 r st1 by auto
qed

lemma side_y:
  assumes c: "eig_contract eig"
    and e: "expand_y ar s ey n = Inr (s1, st1)"
    and f: "Uy s2 = Uy s1" "Pinvy s2 = Pinvy s1" "rmax s2 = rmax s1" "rmin s2 = rmin s1"
    and k: "compress_y ar eig s2 st1 = Inr (s3, st)"
  defines "g \<equiv> fgt (op_div ar (norm2 ar ey) n) (thres s)"
  defines "w1 \<equiv> (if g then ncols (Uy s) + 1 else ncols (Uy s))"
  shows "ncols (Uy s3) =
           (if rmax s < int w1
            then (if 0 \<le> rmin s then min (nat (rmin s)) w1 else w1 - nat (- rmin s))
            else w1)"
    and "st = (if rmax s < int w1 then REDUCTION else if g then AUGMENTATION else NONE)"
proof -
  have w1: "ncols (Uy s2) = w1" and st1: "st1 = (if g then AUGMENTATION else NONE)"
    using expand_y_cases[OF e] f(1) by (auto simp: g_def w1_def)
  have r: "rmax s2 = rmax s" "rmin s2 = rmin s"
    using expand_y_frame(3,4)[OF e] f(3,4) by simp_all
  show "ncols (Uy s3) =
           (if rmax s < int w1
            then (if 0 \<le> rmin s then min (nat (rmin s)) w1 else w1 - nat (- rmin s))
            else w1)"
  proof (cases "rmax s < int w1")
    case False
    then show ?thesis using compress_y_cases[OF k] w1 r by auto
  next
    case True
    with compress_y_cases[OF k] w1 r obtain vals vecs where
      v: "eig (Pinvy s2) = Inr (vals, vecs)" "ncols (Uy s2) = nrows vecs"
         "ncols (Uy s3) = length (py_take (rmin s2) vals)"
      by auto
    from c v(1) have "length vals = nrows vecs"
      unfolding eig_contract_def by metis
    with v(2) w1 have "length vals = w1" by simp
    with v(3) r True show ?thesis by (simp add: length_py_take)
  qed
  show "st = (if rmax s < int w1 then REDUCTION else if g then AUGMENTATION else NONE)"
    using compress_y_cases[OF k] w1 r st1 by auto
qed

lemma projection_errors_residual:
  assumes "projection_errors ar s x y = Inr (ex, ey)"
  shows "normalized_residual ar (Ux s) x = Inr (op_div ar (norm2 ar ex) (norm2 ar x))"
    and "normalized_residual ar (Uy s) y = Inr (op_div ar (norm2 ar ey) (norm2 ar y))"
  using assms by (auto simp: projection_errors_def normalized_residual_def bindE_Inr_iff)

lemma update_sides:
  assumes c: "eig_contract eig"
    and u: "update ar eig s xin yin = Inr (s', sx, sy)"
  obtains rx ry where
    "normalized_residual ar (Ux s) (reshape_col xin) = Inr rx"
    "normalized_residual ar (Uy s) (reshape_col yin) = Inr ry"
    "ncols (Ux s') =
       (if rmax s < int (if fgt rx (thres s) then ncols (Ux s) + 1 else ncols (Ux s))
        then (if 0 \<le> rmin s
              then min (nat (rmin s)) (if fgt rx (thres s) then ncols (Ux s) + 1 else ncols (Ux s))
              else (if fgt rx (thres s) then ncols (Ux s) + 1 else ncols (Ux s)) - nat (- rmin s))
        else (if fgt rx (thres s) then ncols (Ux s) + 1 else ncols (Ux s)))"
    "sx = (if rmax s < int (if fgt rx (thres s) then ncols (Ux s) + 1 else ncols (Ux s))
           then REDUCTION else if fgt rx (thres s) then AUGMENTATION else NONE)"
    "ncols (Uy s') =
       (if rmax s < int (if fgt ry (thres s) then ncols (Uy s) + 1 else ncols (Uy s))
        then (if 0 \<le> rmin s
              then min (nat (rmin s)) (if fgt ry (thres s) then ncols (Uy s) + 1 else ncols (Uy s))
              else (if fgt ry (thres s) then ncols (Uy s) + 1 else ncols (Uy s)) - nat (- rmin s))
        else (if fgt ry (thres s) then ncols (Uy s) + 1 else ncols (Uy s)))"
    "sy = (if rmax s < int (if fgt ry (thres s) then ncols (Uy s) + 1 else ncols (Uy s))
           then REDUCTION else if fgt ry (thres s) then AUGMENTATION else NONE)"
    "rmin s' = rmin s" "rmax s' = rmax s"
proof -
  let ?x = "reshape_col xin" and ?y = "reshape_col yin"
  from u obtain s4 where
    r: "restructure ar eig s ?x ?y = Inr (s4, sx, sy)" and g: "regression_update ar s4 ?x ?y = Inr s'"
    by (rule update_stages)
  from r obtain ex ey s1 xs1 s2 ys1 s3 where
    h: "projection_errors ar s ?x ?y = Inr (ex, ey)"
       "expand_x ar s ex (norm2 ar ?x) = Inr (s1, xs1)"
       "expand_y ar s1 ey (norm2 ar ?y) = Inr (s2, ys1)"
       "compress_x ar eig s2 xs1 = Inr (s3, sx)"
       "compress_y ar eig s3 ys1 = Inr (s4, sy)"
    by (rule restructure_stages)
  note fx = expand_x_frame[OF h(2)] and fy = expand_y_frame[OF h(3)]
    and cx = compress_x_frame[OF h(4)] and cy = compress_y_frame[OF h(5)]
    and rg = regression_update_frame[OF g]
  note X = side_x[OF c h(2) fy(1,2,4,3) h(4)]
  note Y = side_y[OF c h(3) cx(1,2,4,3) h(5)]
  show ?thesis
  proof (rule that[of "op_div ar (norm2 ar ex) (norm2 ar ?x)" "op_div ar (norm2 ar ey) (norm2 ar ?y)"])
    show "normalized_residual ar (Ux s) ?x = Inr (op_div ar (norm2 ar ex) (norm2 ar ?x))"
      "normalized_residual ar (Uy s) ?y = Inr (op_div ar (norm2 ar ey) (norm2 ar ?y))"
      using projection_errors_residual[OF h(1)] by simp_all
    show "rmin s' = rmin s" "rmax s' = rmax s"
      using rg(3,4) cy(3,4) cx(3,4) fy(3,4) fx(3,4) by simp_all
    show "sx = (if rmax s < int (if fgt (op_div ar (norm2 ar ex) (norm2 ar ?x)) (thres s) then ncols (Ux s) + 1 else ncols (Ux s))
           then REDUCTION else if fgt (op_div ar (norm2 ar ex) (norm2 ar ?x)) (thres s) then AUGMENTATION else NONE)"
      using X(2) .
    show "sy = (if rmax s < int (if fgt (op_div ar (norm2 ar ey) (norm2 ar ?y)) (thres s) then ncols (Uy s) + 1 else ncols (Uy s))
           then REDUCTION else if fgt (op_div ar (norm2 ar ey) (norm2 ar ?y)) (thres s) then AUGMENTATION else NONE)"
      using Y(2) fx(1,3,4,5) by simp
    have "ncols (Ux s') = ncols (Ux s3)" using rg(1) cy(1) by simp
    then show "ncols (Ux s') =
       (if rmax s < int (if fgt (op_div ar (norm2 ar ex) (norm2 ar ?x)) (thres s) then ncols (Ux s) + 1 else ncols (Ux s))
        then (if 0 \<le> rmin s
              then min (nat (rmin s)) (if fgt (op_div ar (norm2 ar ex) (norm2 ar ?x)) (thres s) then ncols (Ux s) + 1 else ncols (Ux s))
              else (if fgt (op_div ar (norm2 ar ex) (norm2 ar ?x)) (thres s) then ncols (Ux s) + 1 else ncols (Ux s)) - nat (- rmin s))
        else (if fgt (op_div ar (norm2 ar ex) (norm2 ar ?x)) (thres s) then ncols (Ux s) + 1 else ncols (Ux s)))"
      using X(1) by simp
    have "ncols (Uy s') = ncols (Uy s4)" using rg(2) by simp
    then show "ncols (Uy s') =
       (if rmax s < int (if fgt (op_div ar (norm2 ar ey) (norm2 ar ?y)) (thres s) then ncols (Uy s) + 1 else ncols (Uy s))
        then (if 0 \<le> rmin s
              then min (nat (rmin s)) (if fgt (op_div ar (norm2 ar ey) (norm2 ar ?y)) (thres s) then ncols (Uy s) + 1 else ncols (Uy s))
              else (if fgt (op_div ar (norm2 ar ey) (norm2 ar ?y)) (thres s) then ncols (Uy s) + 1 else ncols (Uy s)) - nat (- rmin s))
        else (if fgt (op_div ar (norm2 ar ey) (norm2 ar ?y)) (thres s) then ncols (Uy s) + 1 else ncols (Uy s)))"
      using Y(1) fx(1,3,4,5) by simp
  qed
qed

text \<open>
  C2. When the widths of \<open>Ux\<close> and \<open>Uy\<close> both lie in \<open>[rmin, rmax]\<close> before a call of
  \<open>update\<close> that returns, they both lie in \<open>[rmin, rmax]\<close> after it, for every pair of
  inputs.
\<close>
theorem rank_bounds_preserved:
  assumes "eig_contract eig"
    and "update ar eig self xin yin = Inr (self', sx, sy)"
    and "rmin self \<le> int (ncols (Ux self))" "int (ncols (Ux self)) \<le> rmax self"
    and "rmin self \<le> int (ncols (Uy self))" "int (ncols (Uy self)) \<le> rmax self"
  shows "rmin self' \<le> int (ncols (Ux self')) \<and> int (ncols (Ux self')) \<le> rmax self' \<and>
         rmin self' \<le> int (ncols (Uy self')) \<and> int (ncols (Uy self')) \<le> rmax self'"
proof -
  from assms(1,2) obtain rx ry where
    h: "ncols (Ux self') =
       (if rmax self < int (if fgt rx (thres self) then ncols (Ux self) + 1 else ncols (Ux self))
        then (if 0 \<le> rmin self
              then min (nat (rmin self)) (if fgt rx (thres self) then ncols (Ux self) + 1 else ncols (Ux self))
              else (if fgt rx (thres self) then ncols (Ux self) + 1 else ncols (Ux self)) - nat (- rmin self))
        else (if fgt rx (thres self) then ncols (Ux self) + 1 else ncols (Ux self)))"
    "ncols (Uy self') =
       (if rmax self < int (if fgt ry (thres self) then ncols (Uy self) + 1 else ncols (Uy self))
        then (if 0 \<le> rmin self
              then min (nat (rmin self)) (if fgt ry (thres self) then ncols (Uy self) + 1 else ncols (Uy self))
              else (if fgt ry (thres self) then ncols (Uy self) + 1 else ncols (Uy self)) - nat (- rmin self))
        else (if fgt ry (thres self) then ncols (Uy self) + 1 else ncols (Uy self)))"
    "rmin self' = rmin self" "rmax self' = rmax self"
    by (rule update_sides)
  have "rmin self \<le> int (ncols (Ux self')) \<and> int (ncols (Ux self')) \<le> rmax self"
    unfolding h(1) using assms(3,4) by (cases "fgt rx (thres self)") auto
  moreover have "rmin self \<le> int (ncols (Uy self')) \<and> int (ncols (Uy self')) \<le> rmax self"
    unfolding h(2) using assms(5,6) by (cases "fgt ry (thres self)") auto
  ultimately show ?thesis using h(3,4) by simp
qed

theorem rank_bounds_preserved_witness:
  "eig_contract eig_diagonal \<and>
   update exact eig_diagonal base0 [Num 0, Num 1] [Num 1, Num 0] = Inr (base1, REDUCTION, NONE) \<and>
   rmin base0 \<le> int (ncols (Ux base0)) \<and> int (ncols (Ux base0)) \<le> rmax base0 \<and>
   rmin base0 \<le> int (ncols (Uy base0)) \<and> int (ncols (Uy base0)) \<le> rmax base0 \<and>
   rmin base1 \<le> int (ncols (Ux base1)) \<and> int (ncols (Ux base1)) \<le> rmax base1 \<and>
   rmin base1 \<le> int (ncols (Uy base1)) \<and> int (ncols (Uy base1)) \<le> rmax base1"
proof -
  have b: "rmin base0 \<le> int (ncols (Ux base0))" "int (ncols (Ux base0)) \<le> rmax base0"
    "rmin base0 \<le> int (ncols (Uy base0))" "int (ncols (Uy base0)) \<le> rmax base0"
    by (simp_all add: base0_def m_of_def)
  show ?thesis
    using rank_bounds_preserved[OF eig_diagonal_contract update_base0 b] b
      eig_diagonal_contract update_base0
    by simp
qed









section \<open>Sorting the eigenvalues\<close>

lemma map_insort_key:
  "map f (insort_key f x xs) = insort (f x) (map f xs)"
  by (induction xs) simp_all

lemma map_sort_key:
  "map f (sort_key f xs) = sort (map f xs)"
  by (induction xs) (simp_all add: map_insort_key)

lemma sort_key_cong_set:
  "(\<And>x. x \<in> set xs \<Longrightarrow> f x = g x) \<Longrightarrow> sort_key f xs = sort_key g xs"
proof (induction xs)
  case Nil
  then show ?case by simp
next
  case (Cons a xs)
  have i: "insort_key f a ys = insort_key g a ys" if "set ys \<subseteq> set (a # xs)" for ys
    using that Cons.prems by (induction ys) auto
  have "sort_key f xs = sort_key g xs"
    using Cons by simp
  moreover have "insort_key f a (sort_key g xs) = insort_key g a (sort_key g xs)"
    by (rule i) auto
  ultimately show ?case by simp
qed

lemma neg_sort_neg_eq_index_argsort:
  "np_neg (np_sort (np_neg v)) = np_index v (np_argsort (np_neg v))"
proof -
  let ?f = "\<lambda>i. - (v ! i)"
  have k: "np_argsort (np_neg v) = sort_key ?f [0..<length v]"
    unfolding np_argsort_def np_neg_def length_map by (rule sort_key_cong_set) simp
  have "map ?f [0..<length v] = map uminus v"
    by (rule nth_equalityI) simp_all
  then have "sort (map uminus v) = map ?f (sort_key ?f [0..<length v])"
    by (simp add: map_sort_key)
  then have "np_neg (np_sort (np_neg v)) = map (\<lambda>i. - (- (v ! i))) (sort_key ?f [0..<length v])"
    by (simp add: np_neg_def np_sort_def comp_def)
  then show ?thesis by (simp add: k np_index_def)
qed


lemma neg_sort_neg_any_argsort:
  assumes "mset p = mset [0..<length v]" "sorted (map (\<lambda>i. - (v ! i)) p)"
  shows "np_neg (np_sort (np_neg v)) = np_index v p"
proof -
  let ?f = "\<lambda>i. - (v ! i)"
  have "map ?f [0..<length v] = map uminus v"
    by (rule nth_equalityI) simp_all
  then have "mset (map ?f p) = mset (map uminus v)"
    using assms(1) by (metis mset_map)
  then have "sort (map uminus v) = map ?f p"
    using assms(2) by (simp add: properties_for_sort)
  then show ?thesis
    by (simp add: np_neg_def np_sort_def np_index_def comp_def)
qed

section \<open>The regression update and the forgetting factor\<close>

lemma with_rho_simps [simp]:
  "with_rho r (Inl e) = Inl e"
  "with_rho r (Inr (s, a)) = Inr (s\<lparr>rho := r\<rparr>, a)"
  by (simp_all add: with_rho_def)

lemma with_rho_bindE:
  assumes "\<And>s a. f (s\<lparr>rho := r\<rparr>, a) = with_rho r (f (s, a))"
  shows "bindE (with_rho r m) f = with_rho r (bindE m f)"
  using assms by (cases m) (auto simp: with_rho_def)










subsection \<open>The y-side reduction\<close>

text \<open>
  C10. For every array \<open>v\<close> of eigenvalues, \<open>-sort(-v)\<close> is \<open>v\<close> indexed by
  \<open>argsort(-v)\<close>, for the \<open>argsort\<close> of the model and for any permutation of the indices
  that sorts \<open>-v\<close>. So the y-side reduction, which sorts the eigenvalues separately, is the
  reduction that indexes them by the permutation selecting the eigenvectors, as the
  x side does.
\<close>
theorem compress_y_pairs_eigenvalues_like_x:
  "np_neg (np_sort (np_neg v)) = np_index v (np_argsort (np_neg v)) \<and>
   (mset p = mset [0..<length v] \<and> sorted (map (\<lambda>i. - (v ! i)) p) \<longrightarrow>
      np_neg (np_sort (np_neg v)) = np_index v p) \<and>
   compress_y ar eig self y_status = compress_y_xrule ar eig self y_status"
proof (intro conjI impI)
  show "np_neg (np_sort (np_neg v)) = np_index v (np_argsort (np_neg v))"
    by (rule neg_sort_neg_eq_index_argsort)
  show "np_neg (np_sort (np_neg v)) = np_index v p"
    if "mset p = mset [0..<length v] \<and> sorted (map (\<lambda>i. - (v ! i)) p)"
    using that neg_sort_neg_any_argsort[of p v] by blast
  show "compress_y ar eig self y_status = compress_y_xrule ar eig self y_status"
    by (simp add: compress_y_def compress_y_xrule_def neg_sort_neg_eq_index_argsort Let_def)
qed

theorem compress_y_pairs_eigenvalues_like_x_witness:
  "mset [1, 0] = mset [0..<length [1, 2 :: real]] \<and>
   sorted (map (\<lambda>i. - ([1, 2 :: real] ! i)) [1, 0]) \<and>
   np_neg (np_sort (np_neg [1, 2])) = np_index [1, 2] [1, 0] \<and>
   np_index [1, 2] [1, 0] = [2, 1] \<and>
   compress_y exact eig_diagonal base0 NONE = compress_y_xrule exact eig_diagonal base0 NONE"
proof -
  have a: "mset [1, 0] = mset [0..<length [1, 2 :: real]]"
    by (simp add: upt2)
  have b: "sorted (map (\<lambda>i. - ([1, 2 :: real] ! i)) [1, 0])"
    by simp
  have c: "np_index [1, 2] [1, 0] = [2, 1]"
    by (simp add: np_index_def)
  from compress_y_pairs_eigenvalues_like_x[of "[1, 2]" "[1, 0]" exact eig_diagonal base0 NONE] a b
  have "np_neg (np_sort (np_neg [1, 2])) = np_index [1, 2] [1, 0]"
    and "compress_y exact eig_diagonal base0 NONE = compress_y_xrule exact eig_diagonal base0 NONE"
    by blast+
  with a b c show ?thesis by blast
qed


section \<open>Reachable states\<close>

text \<open>
  The bounds that the theorems on \<open>update\<close> assume of a state hold after construction
  with \<open>1 \<le> rmin \<le> rmax\<close> and are kept by every completed update.
\<close>

lemma init_width:
  assumes "sDMD_base_init ar svd X Y rmin0 rmax0 thres0 hl = Inr s"
  shows "1 \<le> rmin0" "rmin s = rmin0" "rmax s = rmax0"
    "\<exists>U S Vh. svd X = Inr (U, S, Vh) \<and> ncols (Ux s) = min (nat rmin0) (ncols U)"
    "\<exists>U S Vh. svd Y = Inr (U, S, Vh) \<and> ncols (Uy s) = min (nat rmin0) (ncols U)"
proof -
  from assms obtain ux sx vx uy sy vy where
    h: "truncatedSVD ar svd X (IntR rmin0) = Inr (ux, sx, vx)"
       "truncatedSVD ar svd Y (IntR rmin0) = Inr (uy, sy, vy)"
       "Ux s = ux" "Uy s = uy" "rmin s = rmin0" "rmax s = rmax0"
    by (auto simp: sDMD_base_init_def bindE_Inr_iff)
  from h(1) obtain U S Vh rank where
    x: "svd X = Inr (U, S, Vh)" "svd_rank ar (IntR rmin0) U S = Inr rank" "ux = cols_upto rank U"
    by (rule truncatedSVD_first)
  from h(2) obtain U' S' Vh' rank' where
    y: "svd Y = Inr (U', S', Vh')" "svd_rank ar (IntR rmin0) U' S' = Inr rank'" "uy = cols_upto rank' U'"
    by (rule truncatedSVD_first)
  from x(2) show "1 \<le> rmin0" by (simp add: svd_rank_def split: if_splits)
  show "rmin s = rmin0" "rmax s = rmax0" using h(5,6) .
  from x h(3) show "\<exists>U S Vh. svd X = Inr (U, S, Vh) \<and> ncols (Ux s) = min (nat rmin0) (ncols U)"
    by (auto simp: svd_rank_def split: if_splits)
  from y h(4) show "\<exists>U S Vh. svd Y = Inr (U, S, Vh) \<and> ncols (Uy s) = min (nat rmin0) (ncols U)"
    by (auto simp: svd_rank_def split: if_splits)
qed

lemma init_width_le_rmax:
  assumes "sDMD_base_init ar svd X Y rmin0 rmax0 thres0 hl = Inr s" "rmin0 \<le> rmax0"
  shows "0 \<le> rmin s \<and> rmin s \<le> rmax s \<and>
         int (ncols (Ux s)) \<le> rmax s \<and> int (ncols (Uy s)) \<le> rmax s"
  using init_width[OF assms(1)] assms(2) by auto

lemma update_width_le_rmax:
  assumes "eig_contract eig" "update ar eig s xin yin = Inr (s', sx, sy)"
    and "0 \<le> rmin s" "rmin s \<le> rmax s"
    and "int (ncols (Ux s)) \<le> rmax s" "int (ncols (Uy s)) \<le> rmax s"
  shows "0 \<le> rmin s' \<and> rmin s' \<le> rmax s' \<and>
         int (ncols (Ux s')) \<le> rmax s' \<and> int (ncols (Uy s')) \<le> rmax s'"
proof -
  from assms(1,2) obtain rx ry where
    h: "ncols (Ux s') =
       (if rmax s < int (if fgt rx (thres s) then ncols (Ux s) + 1 else ncols (Ux s))
        then (if 0 \<le> rmin s
              then min (nat (rmin s)) (if fgt rx (thres s) then ncols (Ux s) + 1 else ncols (Ux s))
              else (if fgt rx (thres s) then ncols (Ux s) + 1 else ncols (Ux s)) - nat (- rmin s))
        else (if fgt rx (thres s) then ncols (Ux s) + 1 else ncols (Ux s)))"
    "ncols (Uy s') =
       (if rmax s < int (if fgt ry (thres s) then ncols (Uy s) + 1 else ncols (Uy s))
        then (if 0 \<le> rmin s
              then min (nat (rmin s)) (if fgt ry (thres s) then ncols (Uy s) + 1 else ncols (Uy s))
              else (if fgt ry (thres s) then ncols (Uy s) + 1 else ncols (Uy s)) - nat (- rmin s))
        else (if fgt ry (thres s) then ncols (Uy s) + 1 else ncols (Uy s)))"
    "rmin s' = rmin s" "rmax s' = rmax s"
    by (rule update_sides)
  have "int (ncols (Ux s')) \<le> rmax s"
    unfolding h(1) using assms(3-5) by (cases "fgt rx (thres s)") auto
  moreover have "int (ncols (Uy s')) \<le> rmax s"
    unfolding h(2) using assms(3,4,6) by (cases "fgt ry (thres s)") auto
  ultimately show ?thesis using h(3,4) assms(3,4) by simp
qed

section \<open>The streaming instance with control\<close>

lemma upt1: "[0..<1] = [0]"
  by (simp add: upt_rec)

lemmas evp = bindP_def returnP_def liftE_def liftH_def buffer_update_def buffer_push_def
  buffer_value_def buffer_peek_def new_Stacker_def new_Delayer_def py_col_def py_index_def
  py_nth_def first_col_def set_col_def rows_upto_def full_nan_def m_fl_def

lemmas evu = update_def restructure_def projection_errors_def expand_x_def expand_y_def
  compress_x_def compress_y_def regression_update_def eig_diagonal_def

lemma trace_nan_sample:
  "sDMDc_update exact eig_diagonal ctl0 [NaN] [Num 0] heap0 = (heap1, Inr (ctl1, NONE, NONE))"
  by (simp add: sDMDc_update_def ctl0_def ctl1_def heap0_def heap1_def evp evu ev upt1 upt2 Let_def)

lemma trace_next_sample:
  "sDMDc_update exact eig_diagonal ctl1 [Num 1] [Num 0] heap1 = (heap2, Inr (ctl2, NONE, NONE))"
  by (simp add: sDMDc_update_def ctl0_def ctl1_def ctl2_def heap1_def heap2_def evp evu ev upt1 upt2 Let_def)

lemma pinv_ctl2: "pinv_1x1 (Pinvx ctl2) = Inl LinAlgError"
  by (simp add: pinv_1x1_def ctl2_def ctl0_def m_fl_def ent_def)

lemma A_ctl0: "A_prop exact pinv_1x1 ctl0 = Inr (m_of [[1]])"
  by (simp add: A_prop_def pinv_1x1_def ctl0_def ev upt1)

lemma horizon_ctl0_minimal:
  "predict_horizon exact pinv_1x1 ctl0 heap0 (m_of [[1]]) (m_of [[0]]) 1 = (ctl0, heap0_after, Inl IndexError)"
  apply (simp add: predict_horizon_def predict_horizon_body_def A_ctl0 liftE_def bindP_def)
  apply (simp add: prime_buffers_def ctl0_def heap0_def heap0_after_def evp ev upt1 Let_def
      predict_next_raw_state_from_augmented_def try_predict_def A_prop_def pinv_1x1_def)
  done


section \<open>The single-step predictor\<close>

lemma predict_next_when_A_evaluates:
  assumes "A_prop ar pinv self = Inr a"
  shows "predict_next_raw_state_from_augmented ar pinv self aug =
     Inr (if nrows aug \<noteq> nrows (Ux self) then full_nan (nx self) 1
          else (case bindE (matmul ar (transpose_m (Ux self)) aug) (\<lambda>t.
                     bindE (matmul ar a t) (\<lambda>yr.
                     bindE (matmul ar (Uy self) yr) (\<lambda>yh.
                     bindE (first_col (rows_upto (nx self) yh)) (\<lambda>v. Inr (reshape_col v))))) of
                  Inl e \<Rightarrow> full_nan (nx self) 1
                | Inr v \<Rightarrow> v))"
  using assms
  by (simp add: predict_next_raw_state_from_augmented_def try_predict_def split: sum.splits)

text \<open>
  C7. The spec says that the single-step predictor never raises and answers every failure
  with the all-NaN vector. The first test of the method evaluates the property \<open>A\<close>
  before the \<open>try\<close> block is entered: whenever \<open>pinv\<close> raises on \<open>Pinvx\<close>, the method
  raises the same exception, for every argument.
\<close>
theorem predict_next_raises_outside_try:
  assumes "pinv (Pinvx self) = Inl e"
  shows "predict_next_raw_state_from_augmented ar pinv self aug = Inl e"
  using assms by (simp add: predict_next_raw_state_from_augmented_def A_prop_def)

theorem predict_next_raises_outside_try_witness:
  "sDMDc_update exact eig_diagonal ctl0 [NaN] [Num 0] heap0 = (heap1, Inr (ctl1, NONE, NONE)) \<and>
   sDMDc_update exact eig_diagonal ctl1 [Num 1] [Num 0] heap1 = (heap2, Inr (ctl2, NONE, NONE)) \<and>
   pinv_1x1 (Pinvx ctl2) = Inl LinAlgError \<and>
   predict_next_raw_state_from_augmented exact pinv_1x1 ctl2 (m_of [[1], [0]]) = Inl LinAlgError"
  using predict_next_raises_outside_try[where pinv = pinv_1x1 and self = ctl2
      and aug = "m_of [[1], [0]]", OF pinv_ctl2]
    trace_nan_sample trace_next_sample pinv_ctl2
  by simp

section \<open>predict_horizon and the heap\<close>

text \<open>Rules for programs that keep the heap.\<close>

lemma keeps_returnP: "V v \<Longrightarrow> keeps n (returnP v) V E"
  by (simp add: keeps_def returnP_def)

lemma keeps_liftE:
  "(case r of Inl e \<Rightarrow> E e | Inr v \<Rightarrow> V v) \<Longrightarrow> keeps n (liftE r) V E"
  by (simp add: keeps_def liftE_def)

lemma keeps_new_Stacker: "keeps n (liftH (new_Stacker d k)) (\<lambda>a. n \<le> a) E"
  by (simp add: keeps_def liftH_def new_Stacker_def)

lemma keeps_new_Delayer: "keeps n (liftH (new_Delayer d k)) (\<lambda>a. n \<le> a) E"
  by (simp add: keeps_def liftH_def new_Delayer_def)

lemma keeps_buffer_update:
  "n \<le> a \<Longrightarrow> keeps n (liftH (buffer_update a x)) (\<lambda>v. True) E"
  by (simp add: keeps_def liftH_def buffer_update_def Let_def)

lemma keeps_buffer_peek:
  "keeps n (liftH (\<lambda>h. (h, buffer_peek a h))) (\<lambda>v. True) E"
  by (simp add: keeps_def liftH_def)

lemma keeps_bindP:
  assumes "keeps n m V1 E" "\<And>v. V1 v \<Longrightarrow> keeps n (k v) V2 E"
  shows "keeps n (bindP m k) V2 E"
  unfolding keeps_def
proof (intro allI impI)
  fix h :: heap
  assume n: "n \<le> length h"
  obtain h1 r1 where m: "m h = (h1, r1)" by (cases "m h")
  from assms(1) n m have 1: "length h \<le> length h1" "take n h1 = take n h"
    "(case r1 of Inl e \<Rightarrow> E e | Inr v \<Rightarrow> V1 v)"
    by (auto simp: keeps_def)
  show "case bindP m k h of (h', r) \<Rightarrow>
          length h \<le> length h' \<and> take n h' = take n h \<and> (case r of Inl e \<Rightarrow> E e | Inr v \<Rightarrow> V2 v)"
  proof (cases r1)
    case (Inl e)
    with m 1 show ?thesis by (simp add: bindP_def)
  next
    case (Inr v)
    with 1 have "V1 v" by simp
    then have k: "keeps n (k v) V2 E" by (rule assms(2))
    obtain h2 r2 where kv: "k v h1 = (h2, r2)" by (cases "k v h1")
    from 1(1) n have "n \<le> length h1" by simp
    with k[unfolded keeps_def, rule_format, of h1] kv
    have "length h1 \<le> length h2" "take n h2 = take n h1"
      "(case r2 of Inl e \<Rightarrow> E e | Inr v \<Rightarrow> V2 v)"
      by simp_all
    with m Inr kv 1 show ?thesis by (simp add: bindP_def)
  qed
qed

lemma keeps_weaken:
  "keeps n m V E \<Longrightarrow> (\<And>v. V v \<Longrightarrow> V' v) \<Longrightarrow> keeps n m V' E"
  unfolding keeps_def by (fastforce split: prod.splits sum.splits)

lemma keeps_foldP:
  assumes "\<And>i acc. keeps n (body i acc) (\<lambda>v. True) E"
  shows "keeps n (foldP js body acc) (\<lambda>v. True) E"
proof (induction js arbitrary: acc)
  case Nil
  show ?case by (simp add: keeps_returnP)
next
  case (Cons i js)
  show ?case
    by (simp, rule keeps_bindP[OF assms]) (rule Cons.IH)
qed

lemma py_index_error: "py_index n j = Inl e \<Longrightarrow> e = IndexError"
  by (auto simp: py_index_def Let_def split: if_splits)

lemma py_col_error: "py_col M j = Inl e \<Longrightarrow> e = IndexError"
  by (cases "py_index (ncols M) j") (auto simp: py_col_def dest: py_index_error)

lemma py_nth_error: "py_nth xs j = Inl e \<Longrightarrow> e = IndexError"
  by (cases "py_index (length xs) j") (auto simp: py_nth_def dest: py_index_error)

lemma keeps_py_col: "E IndexError \<Longrightarrow> keeps n (liftE (py_col M j)) (\<lambda>v. True) E"
  by (rule keeps_liftE) (auto split: sum.splits dest: py_col_error)

lemma keeps_py_nth: "E IndexError \<Longrightarrow> keeps n (liftE (py_nth xs j)) (\<lambda>v. True) E"
  by (rule keeps_liftE) (auto split: sum.splits dest: py_nth_error)

lemma keeps_push_col:
  assumes "E IndexError" "n \<le> a"
  shows "keeps n (bindP (liftE (py_col M j)) (\<lambda>c.
                  bindP (liftH (buffer_update a c)) (\<lambda>r. returnP ()))) (\<lambda>v. True) E"
  by (rule keeps_bindP[OF keeps_py_col[where E = E, OF assms(1)]],
      rule keeps_bindP[OF keeps_buffer_update[OF assms(2)]],
      rule keeps_returnP) simp

lemma keeps_push_nth:
  assumes "E IndexError" "n \<le> a"
  shows "keeps n (bindP (liftE (py_nth xs j)) (\<lambda>v.
                  bindP (liftH (buffer_update a (flatten v))) (\<lambda>r. returnP ()))) (\<lambda>v. True) E"
  by (rule keeps_bindP[OF keeps_py_nth[where E = E, OF assms(1)]],
      rule keeps_bindP[OF keeps_buffer_update[OF assms(2)]],
      rule keeps_returnP) simp

lemma keeps_collect:
  assumes "E IndexError" "n \<le> a"
  shows "keeps n (bindP (liftE (py_col M j)) (\<lambda>c.
                  bindP (liftH (buffer_update a c)) (\<lambda>r.
                  if b then bindP (liftH (\<lambda>h. (h, buffer_peek a h))) (\<lambda>v. returnP (hist @ [v]))
                  else returnP hist))) (\<lambda>v. True) E"
proof (rule keeps_bindP[OF keeps_py_col[where E = E, OF assms(1)]],
    rule keeps_bindP[OF keeps_buffer_update[OF assms(2)]])
  show "keeps n (if b then bindP (liftH (\<lambda>h. (h, buffer_peek a h))) (\<lambda>v. returnP (hist @ [v]))
                 else returnP hist) (\<lambda>v. True) E"
    by (cases b) (auto intro: keeps_bindP[OF keeps_buffer_peek] keeps_returnP)
qed

lemma keeps_prime_buffers:
  assumes e: "E IndexError"
  shows "keeps n (prime_buffers self x_hist u req) (\<lambda>(a0, a1, a2). n \<le> a0 \<and> n \<le> a1 \<and> n \<le> a2) E"
  unfolding prime_buffers_def
proof (rule keeps_bindP[OF keeps_new_Stacker], rule keeps_bindP[OF keeps_new_Delayer],
    rule keeps_bindP[OF keeps_new_Delayer])
  fix a0 a1 a2 :: nat
  assume a: "n \<le> a0" "n \<le> a1" "n \<le> a2"
  show "keeps n
        (bindP (foldP [0..<stack_s self]
              (\<lambda>i acc. bindP (liftE (py_col x_hist (- (int (stack_s self) - int i)))) (\<lambda>c.
                        bindP (liftH (buffer_update a0 c)) (\<lambda>r. returnP ())))
              ()) (\<lambda>u1.
         bindP (liftH (new_Stacker (nx self) (stack_s self))) (\<lambda>temp_s0_for_priming.
         bindP (foldP [0..<nat req]
              (\<lambda>i hist. bindP (liftE (py_col x_hist (int i))) (\<lambda>c.
                         bindP (liftH (buffer_update temp_s0_for_priming c)) (\<lambda>r.
                         if int (stack_s self) - 1 \<le> int i
                         then bindP (liftH (\<lambda>h. (h, buffer_peek temp_s0_for_priming h))) (\<lambda>v.
                                returnP (hist @ [v]))
                         else returnP hist)))
              []) (\<lambda>temp_hist_x0_hank_for_Xstack1.
         bindP (foldP [0..<delay_f self]
              (\<lambda>i acc. bindP (liftE (py_nth temp_hist_x0_hank_for_Xstack1
                                        (- (int (delay_f self) - int i)))) (\<lambda>v.
                        bindP (liftH (buffer_update a1 (flatten v))) (\<lambda>r. returnP ())))
              ()) (\<lambda>u2.
         bindP (foldP [0..<delay_f self]
              (\<lambda>i acc. bindP (liftE (py_col u (int i))) (\<lambda>c.
                        bindP (liftH (buffer_update a2 c)) (\<lambda>r. returnP ())))
              ()) (\<lambda>u3.
           returnP (a0, a1, a2)))))))
        (\<lambda>(a0, a1, a2). n \<le> a0 \<and> n \<le> a1 \<and> n \<le> a2) E"
  proof (rule keeps_bindP[OF keeps_foldP], rule keeps_push_col[where E = E, OF e a(1)],
      rule keeps_bindP[OF keeps_new_Stacker],
      rule keeps_bindP[OF keeps_foldP], rule keeps_collect[where E = E, OF e], assumption,
      rule keeps_bindP[OF keeps_foldP], rule keeps_push_nth[where E = E, OF e a(2)],
      rule keeps_bindP[OF keeps_foldP], rule keeps_push_col[where E = E, OF e a(3)],
      rule keeps_returnP)
    show "case (a0, a1, a2) of (a0, a1, a2) \<Rightarrow> n \<le> a0 \<and> n \<le> a1 \<and> n \<le> a2"
      using a by simp
  qed
qed

lemma vstack_error: "vstack A B = Inl e \<Longrightarrow> e = ValueError Concatenate"
  by (auto simp: vstack_def split: if_splits)

lemma set_col_error: "set_col P i v = Inl e \<Longrightarrow> e = IndexError \<or> e = ValueError Broadcast"
  by (auto simp: set_col_def split: if_splits)

lemma keeps_horizon_loop:
  assumes a: "n \<le> a0" "n \<le> a1" "n \<le> a2"
    and e: "E IndexError" "E (ValueError Concatenate)" "E (ValueError Broadcast)"
    and p: "\<And>aug e. predict_next_raw_state_from_augmented ar pinv self aug = Inl e \<Longrightarrow> E e"
  shows "keeps n (horizon_loop ar pinv self u a0 a1 a2 k i P cur) (\<lambda>v. True) E"
proof (induction k arbitrary: i P cur)
  case 0
  show ?case by (simp add: keeps_returnP)
next
  case (Suc k)
  have v: "keeps n (liftE (vstack A B)) (\<lambda>v. True) E" for A B
    by (rule keeps_liftE) (auto split: sum.splits dest: vstack_error simp: e)
  have q: "keeps n (liftE (predict_next_raw_state_from_augmented ar pinv self aug)) (\<lambda>v. True) E" for aug
    by (rule keeps_liftE) (auto split: sum.splits dest: p)
  have s: "keeps n (liftE (set_col P' j w)) (\<lambda>v. True) E" for P' j w
    by (rule keeps_liftE) (auto split: sum.splits dest: set_col_error simp: e)
  show ?case
    apply simp
    apply (rule keeps_bindP[OF keeps_py_col[where E = E, OF e(1)]])
    apply (rule keeps_bindP[OF keeps_buffer_update[OF a(1)]])
    apply (rule keeps_bindP[OF keeps_buffer_update[OF a(2)]])
    apply (rule keeps_bindP[OF keeps_buffer_update[OF a(3)]])
    apply (rule keeps_bindP[OF v])
    apply (rule keeps_bindP[OF q])
    apply (auto intro!: keeps_returnP keeps_bindP[OF s] Suc.IH)
    done
qed

lemma keeps_predict_horizon_body:
  "keeps n (predict_horizon_body ar pinv self x_hist u steps) (\<lambda>v. True) (\<lambda>e. True)"
  unfolding predict_horizon_body_def Let_def
proof -
  have A: "keeps n (liftE (A_prop ar pinv self)) (\<lambda>v. True) (\<lambda>e. True)"
    by (rule keeps_liftE) (simp split: sum.splits)
  show "keeps n
     (bindP (liftE (A_prop ar pinv self))
       (\<lambda>a. if nrows x_hist \<noteq> nx self \<or> int (ncols x_hist) < int (stack_s self) + int (delay_f self) - 1
          then liftE (Inl (ValueError XHistory))
          else if nrows u \<noteq> nu self \<or> int (ncols u) < int steps + int (delay_f self) - 1
               then liftE (Inl (ValueError UFuture))
               else bindP (prime_buffers self x_hist u (int (stack_s self) + int (delay_f self) - 1))
                     (\<lambda>(a0, a1, a2).
                         bindP (liftE (py_col x_hist (- 1)))
                          (horizon_loop ar pinv self u a0 a1 a2 steps 0 (zeros (nx self) steps)))))
     (\<lambda>v. True) (\<lambda>e. True)"
  proof (rule keeps_bindP[OF A])
  fix a
  have "keeps n (bindP (prime_buffers self x_hist u (int (stack_s self) + int (delay_f self) - 1))
           (\<lambda>(a0, a1, a2).
               bindP (liftE (py_col x_hist (- 1)))
                (horizon_loop ar pinv self u a0 a1 a2 steps 0 (zeros (nx self) steps))))
         (\<lambda>v. True) (\<lambda>e. True)"
  proof (rule keeps_bindP[OF keeps_prime_buffers[where E = "\<lambda>e. True"]])
    fix v :: "nat \<times> nat \<times> nat"
    assume "case v of (a0, a1, a2) \<Rightarrow> n \<le> a0 \<and> n \<le> a1 \<and> n \<le> a2"
    then obtain a0 a1 a2 where v: "v = (a0, a1, a2)" "n \<le> a0" "n \<le> a1" "n \<le> a2"
      by (cases v) auto
    show "keeps n (case v of (a0, a1, a2) \<Rightarrow>
               bindP (liftE (py_col x_hist (- 1)))
                (horizon_loop ar pinv self u a0 a1 a2 steps 0 (zeros (nx self) steps)))
            (\<lambda>v. True) (\<lambda>e. True)"
      unfolding v(1) prod.case
      by (rule keeps_bindP[OF keeps_py_col[where E = "\<lambda>e. True"]])
        (simp_all add: keeps_horizon_loop[OF v(2-4)])
  qed simp
  then show "keeps n
          (if nrows x_hist \<noteq> nx self \<or> int (ncols x_hist) < int (stack_s self) + int (delay_f self) - 1
           then liftE (Inl (ValueError XHistory))
           else if nrows u \<noteq> nu self \<or> int (ncols u) < int steps + int (delay_f self) - 1
                then liftE (Inl (ValueError UFuture))
                else bindP (prime_buffers self x_hist u (int (stack_s self) + int (delay_f self) - 1))
                      (\<lambda>(a0, a1, a2).
                          bindP (liftE (py_col x_hist (- 1)))
                           (horizon_loop ar pinv self u a0 a1 a2 steps 0 (zeros (nx self) steps))))
          (\<lambda>v. True) (\<lambda>e. True)"
    by (simp add: keeps_liftE)
  qed
qed

text \<open>
  C9. A call of \<open>predict_horizon\<close>, whether it returns or raises, leaves the instance as
  it was and changes no object that was in the heap before the call: the heap after the
  call is the heap before it followed by the temporary buffers. In particular the three
  live delay buffers are unchanged.
\<close>
theorem predict_horizon_leaves_model_unchanged:
  assumes "predict_horizon ar pinv self h x_hist u steps = (self', h', r)"
  shows "self' = self \<and> length h \<le> length h' \<and> take (length h) h' = h \<and>
         (Xstack0 self < length h \<longrightarrow> h' ! Xstack0 self = h ! Xstack0 self) \<and>
         (Xstack1 self < length h \<longrightarrow> h' ! Xstack1 self = h ! Xstack1 self) \<and>
         (Ustack self < length h \<longrightarrow> h' ! Ustack self = h ! Ustack self)"
proof -
  from assms have b: "predict_horizon_body ar pinv self x_hist u steps h = (h', r)" and s: "self' = self"
    by (auto simp: predict_horizon_def split: prod.splits)
  from keeps_predict_horizon_body[of "length h" ar pinv self x_hist u steps] b
  have k: "length h \<le> length h'" "take (length h) h' = h"
    by (auto simp: keeps_def)
  have "h' ! a = h ! a" if "a < length h" for a
  proof -
    have "take (length h) h' ! a = h' ! a" using that by simp
    with k(2) show ?thesis by simp
  qed
  with s k show ?thesis by simp
qed

lemma horizon_ctl0_two_controls:
  "predict_horizon exact pinv_1x1 ctl0 heap0 (m_of [[1]]) (m_of [[0, 0]]) 1 =
     (ctl0, heap0_done, Inr (m_of [[1]]))"
  apply (simp add: predict_horizon_def predict_horizon_body_def A_ctl0 liftE_def bindP_def)
  apply (simp add: prime_buffers_def ctl0_def heap0_def heap0_done_def evp ev upt1 upt2 Let_def
      predict_next_raw_state_from_augmented_def try_predict_def A_prop_def pinv_1x1_def)
  done

theorem predict_horizon_leaves_model_unchanged_witness:
  "predict_horizon exact pinv_1x1 ctl0 heap0 (m_of [[1]]) (m_of [[0, 0]]) 1 =
     (ctl0, heap0_done, Inr (m_of [[1]])) \<and>
   length heap0 \<le> length heap0_done \<and> take (length heap0) heap0_done = heap0 \<and>
   Xstack0 ctl0 < length heap0 \<and> heap0_done ! Xstack0 ctl0 = heap0 ! Xstack0 ctl0 \<and>
   Xstack1 ctl0 < length heap0 \<and> heap0_done ! Xstack1 ctl0 = heap0 ! Xstack1 ctl0 \<and>
   Ustack ctl0 < length heap0 \<and> heap0_done ! Ustack ctl0 = heap0 ! Ustack ctl0"
proof -
  have a: "Xstack0 ctl0 < length heap0" "Xstack1 ctl0 < length heap0" "Ustack ctl0 < length heap0"
    by (simp_all add: ctl0_def heap0_def)
  show ?thesis
    using predict_horizon_leaves_model_unchanged[OF horizon_ctl0_two_controls] a
      horizon_ctl0_two_controls
    by simp
qed

section \<open>The shape checks of predict_horizon\<close>

lemma predict_next_total:
  assumes "A_prop ar pinv self = Inr a"
  shows "predict_next_raw_state_from_augmented ar pinv self aug \<noteq> Inl e"
  using predict_next_when_A_evaluates[OF assms, of aug] by simp

lemma predict_horizon_body_valid:
  assumes "A_prop ar pinv self = Inr a" "x_hist_valid self x_hist" "u_future_valid self u steps"
  shows "predict_horizon_body ar pinv self x_hist u steps h =
     bindP (prime_buffers self x_hist u (int (stack_s self) + int (delay_f self) - 1))
       (\<lambda>(a0, a1, a2).
           bindP (liftE (py_col x_hist (- 1)))
            (horizon_loop ar pinv self u a0 a1 a2 steps 0 (zeros (nx self) steps))) h"
  using assms
  by (auto simp: predict_horizon_body_def x_hist_valid_def u_future_valid_def Let_def
      bindP_def liftE_def)

lemma keeps_after_validation:
  assumes "A_prop ar pinv self = Inr a"
  shows "keeps n
     (bindP (prime_buffers self x_hist u req)
       (\<lambda>(a0, a1, a2).
           bindP (liftE (py_col x_hist (- 1)))
            (horizon_loop ar pinv self u a0 a1 a2 steps 0 (zeros (nx self) steps))))
     (\<lambda>v. True) past_validation"
proof (rule keeps_bindP[OF keeps_prime_buffers[where E = past_validation]])
  show "past_validation IndexError" by (simp add: past_validation_def)
next
  fix v :: "nat \<times> nat \<times> nat"
  assume "case v of (a0, a1, a2) \<Rightarrow> n \<le> a0 \<and> n \<le> a1 \<and> n \<le> a2"
  then obtain a0 a1 a2 where v: "v = (a0, a1, a2)" "n \<le> a0" "n \<le> a1" "n \<le> a2"
    by (cases v) auto
  have l: "keeps n (horizon_loop ar pinv self u a0 a1 a2 steps 0 (zeros (nx self) steps) cur)
             (\<lambda>v. True) past_validation" for cur
    by (rule keeps_horizon_loop[OF v(2-4)])
      (simp_all add: past_validation_def predict_next_total[OF assms])
  show "keeps n (case v of (a0, a1, a2) \<Rightarrow>
             bindP (liftE (py_col x_hist (- 1)))
              (horizon_loop ar pinv self u a0 a1 a2 steps 0 (zeros (nx self) steps)))
          (\<lambda>v. True) past_validation"
    unfolding v(1) prod.case
    by (rule keeps_bindP[OF keeps_py_col[where E = past_validation]])
      (simp_all add: l past_validation_def)
qed

text \<open>
  Once the property \<open>A\<close> has been evaluated, the shape checks are as the spec says: a
  history that does not have \<open>nx\<close> rows and at least \<open>s + f - 1\<close> columns, or a control
  sequence that does not have \<open>nu\<close> rows and at least \<open>steps + f - 1\<close> columns, makes the
  call raise the ValueError of the corresponding check with the heap untouched; and when
  both shapes are valid the call raises neither of the two.
\<close>

theorem predict_horizon_validation:
  assumes "A_prop ar pinv self = Inr a"
  shows "(\<not> x_hist_valid self x_hist \<longrightarrow>
            predict_horizon ar pinv self h x_hist u steps = (self, h, Inl (ValueError XHistory))) \<and>
         (x_hist_valid self x_hist \<and> \<not> u_future_valid self u steps \<longrightarrow>
            predict_horizon ar pinv self h x_hist u steps = (self, h, Inl (ValueError UFuture))) \<and>
         (x_hist_valid self x_hist \<and> u_future_valid self u steps \<longrightarrow>
            (\<forall>e. snd (snd (predict_horizon ar pinv self h x_hist u steps)) = Inl e \<longrightarrow>
                 past_validation e))"
proof (intro conjI impI allI)
  assume "\<not> x_hist_valid self x_hist"
  with assms show "predict_horizon ar pinv self h x_hist u steps = (self, h, Inl (ValueError XHistory))"
    by (auto simp: predict_horizon_def predict_horizon_body_def x_hist_valid_def Let_def
        bindP_def liftE_def)
next
  assume "x_hist_valid self x_hist \<and> \<not> u_future_valid self u steps"
  with assms show "predict_horizon ar pinv self h x_hist u steps = (self, h, Inl (ValueError UFuture))"
    by (auto simp: predict_horizon_def predict_horizon_body_def x_hist_valid_def
        u_future_valid_def Let_def bindP_def liftE_def)
next
  fix e
  assume v: "x_hist_valid self x_hist \<and> u_future_valid self u steps"
    and r: "snd (snd (predict_horizon ar pinv self h x_hist u steps)) = Inl e"
  let ?m = "bindP (prime_buffers self x_hist u (int (stack_s self) + int (delay_f self) - 1))
       (\<lambda>(a0, a1, a2).
           bindP (liftE (py_col x_hist (- 1)))
            (horizon_loop ar pinv self u a0 a1 a2 steps 0 (zeros (nx self) steps)))"
  from v have b: "predict_horizon_body ar pinv self x_hist u steps h = ?m h"
    using predict_horizon_body_valid[OF assms] by simp
  obtain h' r' where m: "?m h = (h', r')" by (cases "?m h")
  with b r have "r' = Inl e" by (simp add: predict_horizon_def)
  with keeps_after_validation[OF assms, of "length h" x_hist u
      "int (stack_s self) + int (delay_f self) - 1" steps] m
  show "past_validation e" by (auto simp: keeps_def)
qed

lemma x_invalid_ctl2: "\<not> x_hist_valid ctl2 (m_of [[1], [1]])"
  by (simp add: x_hist_valid_def ctl2_def ctl0_def m_of_def)

lemma horizon_ctl2:
  "predict_horizon exact pinv_1x1 ctl2 heap2 (m_of [[1], [1]]) (m_of [[0]]) 1 = (ctl2, heap2, Inl LinAlgError)"
  by (simp add: predict_horizon_def predict_horizon_body_def A_prop_def pinv_ctl2 bindP_def liftE_def)

text \<open>
  C6. The spec says that \<open>predict_horizon\<close> fails with the dimension error of its shape
  checks, before any computation, whenever a shape is invalid. The guard of line 475
  evaluates the property \<open>A\<close> before the checks and outside any \<open>try\<close>: whenever \<open>pinv\<close>
  raises on \<open>Pinvx\<close>, the call raises that exception, whatever the shapes, and the
  dimension error is never reached.
\<close>
theorem predict_horizon_raises_before_shape_checks:
  assumes "pinv (Pinvx self) = Inl e"
  shows "predict_horizon ar pinv self h x_hist u steps = (self, h, Inl e)"
  using assms
  by (simp add: predict_horizon_def predict_horizon_body_def A_prop_def bindP_def liftE_def)

text \<open>
  Two updates after a NaN sample \<open>Pinvx\<close> is NaN, and a call with a history of the wrong
  height raises LinAlgError, not the dimension error.
\<close>

theorem predict_horizon_raises_before_shape_checks_witness:
  "sDMDc_update exact eig_diagonal ctl0 [NaN] [Num 0] heap0 = (heap1, Inr (ctl1, NONE, NONE)) \<and>
   sDMDc_update exact eig_diagonal ctl1 [Num 1] [Num 0] heap1 = (heap2, Inr (ctl2, NONE, NONE)) \<and>
   pinv_1x1 (Pinvx ctl2) = Inl LinAlgError \<and>
   \<not> x_hist_valid ctl2 (m_of [[1], [1]]) \<and>
   predict_horizon exact pinv_1x1 ctl2 heap2 (m_of [[1], [1]]) (m_of [[0]]) 1 =
     (ctl2, heap2, Inl LinAlgError) \<and>
   Inl LinAlgError \<noteq> (Inl (ValueError XHistory) :: error + mat)"
  using predict_horizon_raises_before_shape_checks[where pinv = pinv_1x1 and self = ctl2
      and ar = exact and h = heap2 and x_hist = "m_of [[1], [1]]" and u = "m_of [[0]]"
      and steps = 1, OF pinv_ctl2]
    trace_nan_sample trace_next_sample x_invalid_ctl2 pinv_ctl2
  by simp

theorem predict_horizon_validation_witness:
  "A_prop exact pinv_1x1 ctl0 = Inr (m_of [[1]]) \<and>
   \<not> x_hist_valid ctl0 (m_of [[1], [1]]) \<and>
   predict_horizon exact pinv_1x1 ctl0 heap0 (m_of [[1], [1]]) (m_of [[0]]) 1
     = (ctl0, heap0, Inl (ValueError XHistory)) \<and>
   x_hist_valid ctl0 (m_of [[1]]) \<and> \<not> u_future_valid ctl0 (m_of [[0], [0]]) 1 \<and>
   predict_horizon exact pinv_1x1 ctl0 heap0 (m_of [[1]]) (m_of [[0], [0]]) 1
     = (ctl0, heap0, Inl (ValueError UFuture)) \<and>
   u_future_valid ctl0 (m_of [[0]]) 1 \<and>
   snd (snd (predict_horizon exact pinv_1x1 ctl0 heap0 (m_of [[1]]) (m_of [[0]]) 1)) = Inl IndexError \<and>
   past_validation IndexError"
proof -
  have v: "\<not> x_hist_valid ctl0 (m_of [[1], [1]])" "x_hist_valid ctl0 (m_of [[1]])"
    "\<not> u_future_valid ctl0 (m_of [[0], [0]]) 1" "u_future_valid ctl0 (m_of [[0]]) 1"
    by (simp_all add: x_hist_valid_def u_future_valid_def ctl0_def m_of_def)
  note t = predict_horizon_validation[OF A_ctl0]
  have 1: "predict_horizon exact pinv_1x1 ctl0 heap0 (m_of [[1], [1]]) (m_of [[0]]) 1
     = (ctl0, heap0, Inl (ValueError XHistory))"
    using t[of "m_of [[1], [1]]" heap0 "m_of [[0]]" 1] v by blast
  have 2: "predict_horizon exact pinv_1x1 ctl0 heap0 (m_of [[1]]) (m_of [[0], [0]]) 1
     = (ctl0, heap0, Inl (ValueError UFuture))"
    using t[of "m_of [[1]]" heap0 "m_of [[0], [0]]" 1] v by blast
  have 3: "snd (snd (predict_horizon exact pinv_1x1 ctl0 heap0 (m_of [[1]]) (m_of [[0]]) 1)) = Inl IndexError"
    unfolding horizon_ctl0_minimal by simp
  have 4: "past_validation IndexError"
    using t[of "m_of [[1]]" heap0 "m_of [[0]]" 1] v 3 by blast
  from A_ctl0 v 1 2 3 4 show ?thesis by blast
qed

section \<open>The control sequence of predict_horizon\<close>

lemma py_col_out_of_range: "int (ncols M) \<le> j \<Longrightarrow> py_col M j = Inl IndexError"
  by (auto simp: py_col_def py_index_def Let_def)

lemma bindP_Inl: "m h = (h1, Inl e) \<Longrightarrow> bindP m k h = (h1, Inl e)"
  by (simp add: bindP_def)

lemma bindP_Inr: "m h = (h1, Inr v) \<Longrightarrow> bindP m k h = k v h1"
  by (simp add: bindP_def)

lemma bindP_cases:
  obtains (raises) h1 e where "m h = (h1, Inl e)" "bindP m k h = (h1, Inl e)"
  | (returns) h1 v where "m h = (h1, Inr v)" "bindP m k h = k v h1"
proof (cases "m h")
  case (Pair h1 r)
  show ?thesis
  proof (cases r)
    case (Inl e)
    with Pair show ?thesis by (intro raises[of h1 e]) (simp_all add: bindP_def)
  next
    case (Inr v)
    with Pair show ?thesis by (intro returns[of h1 v]) (simp_all add: bindP_def)
  qed
qed

lemma short_Inl [simp]: "short b (h, Inl e)"
  by (simp add: short_def)

lemma short_bindP:
  assumes "\<And>v h1. m h = (h1, Inr v) \<Longrightarrow> short b (k v h1)"
  shows "short b (bindP m k h)"
  by (cases rule: bindP_cases[of m h k]) (simp_all add: assms)

lemma set_col_ncols: "set_col P i v = Inr P' \<Longrightarrow> ncols P' = ncols P"
  by (auto simp: set_col_def split: if_splits)

lemma horizon_step_short:
  assumes r: "\<And>P' cur' h'. short b (horizon_loop ar pinv self u a0 a1 a2 k (Suc i) P' cur' h')"
    and b: "i \<le> b"
  shows "short b (horizon_loop ar pinv self u a0 a1 a2 (Suc k) i P cur h)"
proof -
  have t: "short b ((if list_ex isnan (flatten nxt) then returnP (cols_upto i P)
              else bindP (liftE (set_col P i (flatten nxt)))
                     (\<lambda>P'. horizon_loop ar pinv self u a0 a1 a2 k (Suc i) P' (flatten nxt))) h')"
    for nxt h'
  proof (cases "list_ex isnan (flatten nxt)")
    case True
    with b show ?thesis by (simp add: short_def returnP_def)
  next
    case False
    then show ?thesis by (simp del: horizon_loop.simps add: short_bindP r)
  qed
  show ?thesis
    unfolding horizon_loop.simps(2)
    by (rule short_bindP)+ (rule t)
qed

lemma horizon_loop_short:
  assumes "int (ncols u) \<le> int (delay_f self) + int i + int k"
  shows "short (i + k) (horizon_loop ar pinv self u a0 a1 a2 (Suc k) i P cur h)"
  using assms
proof (induction k arbitrary: i P cur h)
  case 0
  then have "py_col u (int (delay_f self) + int i) = Inl IndexError"
    by (intro py_col_out_of_range) simp
  then show ?case by (simp add: bindP_def liftE_def)
next
  case (Suc k)
  have r: "short (i + Suc k) (horizon_loop ar pinv self u a0 a1 a2 (Suc k) (Suc i) P' cur' h')"
    for P' cur' h'
    using Suc.IH[of "Suc i" P' cur' h'] Suc.prems by simp
  show ?case
    by (rule horizon_step_short[OF r]) simp
qed

lemma foldP_raises:
  assumes "j \<in> set js" "\<And>acc h. \<exists>h' e. body j acc h = (h', Inl e)"
  shows "\<exists>h' e. foldP js body acc h = (h', Inl e)"
  using assms(1)
proof (induction js arbitrary: acc h)
  case Nil
  then show ?case by simp
next
  case (Cons i js)
  show ?case
  proof (cases rule: bindP_cases[of "body i acc" h "foldP js body"])
    case (raises h1 e)
    then show ?thesis by simp
  next
    case (returns h1 v)
    with assms(2)[of acc h] have "i \<noteq> j" by auto
    with Cons.prems have "j \<in> set js" by simp
    from Cons.IH[OF this, of v h1] returns show ?thesis by simp
  qed
qed

lemma prime_buffers_raises:
  assumes "1 \<le> delay_f self" "int (ncols u) = int (delay_f self) - 1"
  shows "\<exists>h' e. prime_buffers self x_hist u req h = (h', Inl e)"
proof -
  let ?j = "delay_f self - 1"
  have j: "?j \<in> set [0..<delay_f self]" using assms(1) by simp
  have c: "py_col u (int ?j) = Inl IndexError"
    using assms by (intro py_col_out_of_range) simp
  have last: "\<exists>h' e. foldP [0..<delay_f self]
              (\<lambda>i acc. bindP (liftE (py_col u (int i))) (\<lambda>c.
                        bindP (liftH (buffer_update a2 c)) (\<lambda>r. returnP ())))
              () h = (h', Inl e)" for a2 h
    by (rule foldP_raises[OF j]) (use c in \<open>simp add: bindP_def liftE_def\<close>)
  have k: "\<exists>h' e. bindP m k h = (h', Inl e)" if "\<And>v h1. \<exists>h' e. k v h1 = (h', Inl e)"
    for m :: "'a prog" and k :: "'a \<Rightarrow> (nat \<times> nat \<times> nat) prog" and h
    by (cases rule: bindP_cases[of m h k]) (use that in auto)
  have k2: "\<exists>h' e. bindP m k h = (h', Inl e)" if "\<exists>h' e. m h = (h', Inl e)"
    for m :: "unit prog" and k :: "unit \<Rightarrow> (nat \<times> nat \<times> nat) prog" and h
    using that by (auto simp: bindP_def)
  show ?thesis
    unfolding prime_buffers_def
    by (intro k k2 last)
qed

text \<open>
  C5. The spec says that on inputs of valid shape \<open>predict_horizon\<close> returns the prefix
  before the first NaN prediction and otherwise the full trajectory of \<open>steps\<close> columns.
  The loop reads column \<open>f + i\<close> of the control sequence, and the shape check and the
  docstring ask for \<open>steps + f - 1\<close> columns: with exactly that many columns (and
  \<open>f \<ge> 1\<close>) the call never returns the full trajectory. It raises, or returns fewer than
  \<open>steps\<close> columns.
\<close>
theorem predict_horizon_minimal_controls_fall_short:
  assumes "1 \<le> delay_f self" "int (ncols u) = int steps + int (delay_f self) - 1"
  shows "case snd (snd (predict_horizon ar pinv self h x_hist u steps)) of
           Inl e \<Rightarrow> True
         | Inr R \<Rightarrow> ncols R < steps"
proof -
  let ?req = "int (stack_s self) + int (delay_f self) - 1"
  have *: "short (steps - 1) (m h) \<and> (steps = 0 \<longrightarrow> (\<exists>e. snd (m h) = Inl e))"
    if "m = bindP (prime_buffers self x_hist u ?req) (\<lambda>(a0, a1, a2).
           bindP (liftE (py_col x_hist (- 1)))
             (horizon_loop ar pinv self u a0 a1 a2 steps 0 (zeros (nx self) steps)))" for m h
  proof (cases steps)
    case 0
    with assms have "int (ncols u) = int (delay_f self) - 1" by simp
    from prime_buffers_raises[OF assms(1) this, of x_hist ?req h]
    obtain h' e where "prime_buffers self x_hist u ?req h = (h', Inl e)" by blast
    then have "m h = (h', Inl e)" unfolding that by (rule bindP_Inl)
    then show ?thesis by simp
  next
    case (Suc k)
    have l: "short k (horizon_loop ar pinv self u a0 a1 a2 (Suc k) 0 P cur h')" for a0 a1 a2 P cur h'
      using horizon_loop_short[of u self 0 k ar pinv a0 a1 a2 P cur h'] assms(2) Suc by simp
    have "short k (m h)"
      unfolding that Suc
      by (rule short_bindP, clarsimp simp del: horizon_loop.simps, rule short_bindP, rule l)
    with Suc show ?thesis by simp
  qed
  obtain h' r where b: "predict_horizon_body ar pinv self x_hist u steps h = (h', r)"
    by (cases "predict_horizon_body ar pinv self x_hist u steps h")
  have "case r of Inl e \<Rightarrow> True | Inr R \<Rightarrow> ncols R < steps"
  proof (cases "A_prop ar pinv self")
    case (Inl e)
    have "predict_horizon_body ar pinv self x_hist u steps h = (h, Inl e)"
      by (simp add: predict_horizon_body_def bindP_def liftE_def Inl)
    with b have "r = Inl e" by simp
    then show ?thesis by simp
  next
    case (Inr a)
    show ?thesis
    proof (cases "x_hist_valid self x_hist \<and> u_future_valid self u steps")
      case False
      with Inr b show ?thesis
        by (auto simp: predict_horizon_body_def bindP_def liftE_def Let_def x_hist_valid_def
            u_future_valid_def split: if_splits)
    next
      case True
      let ?m = "bindP (prime_buffers self x_hist u ?req) (\<lambda>(a0, a1, a2).
           bindP (liftE (py_col x_hist (- 1)))
             (horizon_loop ar pinv self u a0 a1 a2 steps 0 (zeros (nx self) steps)))"
      from True predict_horizon_body_valid[OF Inr, of x_hist u steps h] b
      have m: "?m h = (h', r)" by simp
      from *[OF refl, of h] have "short (steps - 1) (h', r)"
        and z: "steps = 0 \<longrightarrow> (\<exists>e. r = Inl e)"
        unfolding m by simp_all
      then show ?thesis
      proof (cases r)
        case (Inl e)
        then show ?thesis by simp
      next
        case r: (Inr R)
        with z have "steps \<noteq> 0" by auto
        moreover from r \<open>short (steps - 1) (h', r)\<close> have "ncols R \<le> steps - 1"
          by (simp add: short_def)
        ultimately show ?thesis using r by simp
      qed
    qed
  qed
  with b show ?thesis by (simp add: predict_horizon_def)
qed

theorem predict_horizon_minimal_controls_fall_short_witness:
  "1 \<le> delay_f ctl0 \<and> int (ncols (m_of [[0]])) = int 1 + int (delay_f ctl0) - 1 \<and>
   x_hist_valid ctl0 (m_of [[1]]) \<and> u_future_valid ctl0 (m_of [[0]]) 1 \<and>
   predict_horizon exact pinv_1x1 ctl0 heap0 (m_of [[1]]) (m_of [[0]]) 1 = (ctl0, heap0_after, Inl IndexError) \<and>
   (case snd (snd (predict_horizon exact pinv_1x1 ctl0 heap0 (m_of [[1]]) (m_of [[0]]) 1)) of
      Inl e \<Rightarrow> True | Inr R \<Rightarrow> ncols R < 1)"
proof -
  have a: "1 \<le> delay_f ctl0" "int (ncols (m_of [[0]])) = int 1 + int (delay_f ctl0) - 1"
    "x_hist_valid ctl0 (m_of [[1]])" "u_future_valid ctl0 (m_of [[0]]) 1"
    by (simp_all add: ctl0_def m_of_def x_hist_valid_def u_future_valid_def)
  from predict_horizon_minimal_controls_fall_short[OF a(1,2), of exact pinv_1x1 heap0 "m_of [[1]]"]
    a horizon_ctl0_minimal
  show ?thesis by blast
qed

section \<open>truncatedSVD on the two branches that bind the rank\<close>

text \<open>
  The two branches of \<open>truncatedSVD\<close> that bind the rank: an int \<open>r \<ge> 1\<close> keeps
  \<open>min(r, K)\<close> of the \<open>K\<close> singular values, and a float \<open>0 < r < 1\<close> keeps the least rank
  whose cumulative energy is not below \<open>r\<close>.
\<close>

lemma truncatedSVD_int_rank:
  assumes "1 \<le> k" "svd X = Inr (U, S, Vh)"
  shows "truncatedSVD ar svd X (IntR k) =
           Inr (cols_upto (min (nat k) (ncols U)) U, take (min (nat k) (ncols U)) S,
                cols_upto (min (nat k) (ncols U)) (transpose_m Vh))"
  using assms by (simp add: truncatedSVD_def svd_rank_def)

lemma searchsorted_least:
  "searchsorted a v \<le> length a"
  "j < searchsorted a v \<Longrightarrow> flt (a ! j) v"
  "searchsorted a v < length a \<Longrightarrow> \<not> flt (a ! searchsorted a v) v"
proof -
  show "searchsorted a v \<le> length a"
    by (simp add: searchsorted_def length_takeWhile_le)
  show "flt (a ! j) v" if "j < searchsorted a v"
    using that nth_length_takeWhile[of "\<lambda>c. flt c v" a] takeWhile_nth[of j "\<lambda>c. flt c v" a]
      nth_mem[of j "takeWhile (\<lambda>c. flt c v) a"] set_takeWhileD[of _ "\<lambda>c. flt c v" a]
    by (auto simp: searchsorted_def)
  show "\<not> flt (a ! searchsorted a v) v" if "searchsorted a v < length a"
    using that nth_length_takeWhile[of "\<lambda>c. flt c v" a] by (simp add: searchsorted_def)
qed

lemma truncatedSVD_energy_rank:
  fixes ar :: arith
  assumes "0 < q" "q < 1" "svd X = Inr (U, S, Vh)"
  defines "energy \<equiv> cumsum ar (map (\<lambda>e. op_div ar e (op_sum ar (map (\<lambda>s. op_mul ar s s) S))) (map (\<lambda>s. op_mul ar s s) S))"
  shows "\<exists>rank. truncatedSVD ar svd X (FloatR q) =
             Inr (cols_upto rank U, take rank S, cols_upto rank (transpose_m Vh)) \<and>
           1 \<le> rank \<and> (\<forall>j < rank - 1. flt (energy ! j) q) \<and>
           (rank \<le> length energy \<longrightarrow> \<not> flt (energy ! (rank - 1)) q)"
proof -
  let ?r = "searchsorted energy q + 1"
  have "truncatedSVD ar svd X (FloatR q) = Inr (cols_upto ?r U, take ?r S, cols_upto ?r (transpose_m Vh))"
    using assms(1-3) by (simp add: truncatedSVD_def svd_rank_def Let_def energy_def)
  moreover have "\<forall>j < ?r - 1. flt (energy ! j) q"
    using searchsorted_least(2)[of _ energy q] by simp
  moreover have "?r \<le> length energy \<longrightarrow> \<not> flt (energy ! (?r - 1)) q"
    using searchsorted_least(3)[of energy q] by simp
  ultimately show ?thesis by (intro exI[of _ ?r]) simp
qed

text \<open>Construction on batches with at least \<open>rmin\<close> singular values gives both bases the
  width \<open>rmin\<close>.\<close>

lemma init_rank_bounds:
  assumes "sDMD_base_init ar svd X Y rmin0 rmax0 thres0 hl = Inr s" "rmin0 \<le> rmax0"
    and "\<And>U S Vh. svd X = Inr (U, S, Vh) \<Longrightarrow> nat rmin0 \<le> ncols U"
    and "\<And>U S Vh. svd Y = Inr (U, S, Vh) \<Longrightarrow> nat rmin0 \<le> ncols U"
  shows "int (ncols (Ux s)) = rmin s" "int (ncols (Uy s)) = rmin s" "rmin s \<le> rmax s"
proof -
  note w = init_width[OF assms(1)]
  from w(4) assms(3) have "ncols (Ux s) = nat rmin0" by (auto simp: min_def)
  with w(1,2) show "int (ncols (Ux s)) = rmin s" by simp
  from w(5) assms(4) have "ncols (Uy s) = nat rmin0" by (auto simp: min_def)
  with w(1,2) show "int (ncols (Uy s)) = rmin s" by simp
  from w(2,3) assms(2) show "rmin s \<le> rmax s" by simp
qed

end
